theory Spec2Isabelle
  imports Main "HOL-Library.Sublist"
begin

section \<open>Python values used by the scripts\<close>

text \<open>
  A Python \<open>str\<close> is modelled as a \<open>string\<close> (a list of characters, code points 0..255).
  A character of a Python string is itself a string of length one, so a comparison
  \<open>c == delim\<close> of a character with a string is written \<open>[c] = delim\<close>.
\<close>

abbreviation DQ :: char where "DQ \<equiv> CHR 0x22"
abbreviation SQ :: char where "SQ \<equiv> CHR 0x27"
abbreviation LF :: char where "LF \<equiv> CHR 0x0A"
abbreviation CR :: char where "CR \<equiv> CHR 0x0D"
abbreviation TAB :: char where "TAB \<equiv> CHR 0x09"
abbreviation BACKSLASH :: char where "BACKSLASH \<equiv> CHR 0x5C"

datatype error = ValueError | IndexError | AttributeError | TypeError

text \<open>\<open>sub in s\<close> on strings: \<open>sub\<close> occurs in \<open>s\<close> as a contiguous run. The empty string
  occurs in every string.\<close>

fun py_in :: "string \<Rightarrow> string \<Rightarrow> bool" where
  "py_in sub [] = (sub = [])"
| "py_in sub (c # cs) = (prefix sub (c # cs) \<or> py_in sub cs)"

definition startswith :: "string \<Rightarrow> string \<Rightarrow> bool" where
  "startswith s p = prefix p s"

definition endswith :: "string \<Rightarrow> string \<Rightarrow> bool" where
  "endswith s p = suffix p s"

text \<open>\<open>s.rstrip(c)\<close> for a single character \<open>c\<close>.\<close>

definition rstrip :: "string \<Rightarrow> char \<Rightarrow> string" where
  "rstrip s c = rev (dropWhile (\<lambda>x. x = c) (rev s))"

text \<open>\<open>s.split(sep)\<close>: the pieces between the non-overlapping occurrences of \<open>sep\<close>, found
  from left to right. Python raises \<open>ValueError\<close> for the empty separator.\<close>

function split_from :: "string \<Rightarrow> string \<Rightarrow> string \<Rightarrow> string list" where
  "split_from sep cur [] = [cur]"
| "split_from sep cur (c # cs) =
     (if sep \<noteq> [] \<and> prefix sep (c # cs)
      then cur # split_from sep [] (drop (length sep) (c # cs))
      else split_from sep (cur @ [c]) cs)"
  by pat_completeness auto
termination
  by (relation "measure (\<lambda>(sep, cur, s). length s)") auto

definition str_split :: "string \<Rightarrow> string \<Rightarrow> string list" where
  "str_split s sep = split_from sep [] s"

definition py_split :: "string \<Rightarrow> string \<Rightarrow> error + string list" where
  "py_split s sep = (if sep = [] then Inl ValueError else Inr (str_split s sep))"

text \<open>\<open>sep.join(xs)\<close>.\<close>

fun py_join :: "string \<Rightarrow> string list \<Rightarrow> string" where
  "py_join sep [] = []"
| "py_join sep [x] = x"
| "py_join sep (x # y # ys) = x @ sep @ py_join sep (y # ys)"

text \<open>The slice \<open>s[1:-1]\<close>, which is empty when \<open>s\<close> has fewer than three characters.\<close>

definition interior :: "string \<Rightarrow> string" where
  "interior s = butlast (tl s)"

section \<open>common/dialect.py\<close>

text \<open>The three attributes of a \<open>Dialect\<close> hold a string or \<open>None\<close>.\<close>

datatype dialect = Dialect "string option" "string option" "string option"

datatype pyval = PyDialect dialect | PyNone | PyStr string | PyInt int | PyTuple "pyval list"

fun dialect_key :: "dialect \<Rightarrow> string option \<times> string option \<times> string option" where
  "dialect_key (Dialect delimiter quotechar escapechar) = (delimiter, quotechar, escapechar)"

text \<open>\<open>__hash__\<close> applies the built-in \<open>hash\<close> (a parameter here) to the key.\<close>

definition dialect_hash ::
  "(string option \<times> string option \<times> string option \<Rightarrow> int) \<Rightarrow> dialect \<Rightarrow> int" where
  "dialect_hash hash self = hash (dialect_key self)"

text \<open>\<open>__eq__\<close>: \<open>isinstance(other, Dialect)\<close> decides first.\<close>

fun dialect_eq :: "dialect \<Rightarrow> pyval \<Rightarrow> bool" where
  "dialect_eq self (PyDialect other) = (dialect_key self = dialect_key other)"
| "dialect_eq self other = False"

fun isinstance_Dialect :: "pyval \<Rightarrow> bool" where
  "isinstance_Dialect (PyDialect d) = True"
| "isinstance_Dialect other = False"

section \<open>preprocessing/normal\_forms.py: predicates on cells\<close>

definition is_quoted_cell :: "string \<Rightarrow> string \<Rightarrow> bool" where
  "is_quoted_cell cell quotechar =
     (if length cell < 2 then False
      else [hd cell] = quotechar \<and> [last cell] = quotechar)"

definition is_any_quoted_cell :: "string \<Rightarrow> bool" where
  "is_any_quoted_cell cell = (is_quoted_cell cell [SQ] \<or> is_quoted_cell cell [DQ])"

definition is_any_partial_quoted_cell :: "string \<Rightarrow> bool" where
  "is_any_partial_quoted_cell cell =
     (if length cell < 1 then False
      else hd cell = DQ \<or> hd cell = SQ \<or> last cell = DQ \<or> last cell = SQ)"

definition is_empty_quoted :: "string \<Rightarrow> string \<Rightarrow> bool" where
  "is_empty_quoted cell quotechar = (length cell = 2 \<and> is_quoted_cell cell quotechar)"

definition is_empty_unquoted :: "string \<Rightarrow> bool" where
  "is_empty_unquoted cell = (cell = [])"

definition is_any_empty :: "string \<Rightarrow> bool" where
  "is_any_empty cell =
     (is_empty_unquoted cell \<or> is_empty_quoted cell [SQ] \<or> is_empty_quoted cell [DQ])"

definition has_delimiter :: "string \<Rightarrow> string \<Rightarrow> bool" where
  "has_delimiter string delim = py_in delim string"

definition has_nested_quotes :: "string \<Rightarrow> string \<Rightarrow> bool" where
  "has_nested_quotes string quotechar = py_in quotechar (interior string)"

section \<open>Rows and cells\<close>

text \<open>The two loops of \<open>strip_trailing_crnl\<close> have the same shape:
  \<open>while data.endswith(c): data = data.rstrip(c)\<close>.\<close>

function strip_while :: "char \<Rightarrow> string \<Rightarrow> string" where
  "strip_while c data = (if endswith data [c] then strip_while c (rstrip data c) else data)"
  by pat_completeness auto
termination
proof (relation "measure (\<lambda>(c, data). length data)")
  show "wf (measure (\<lambda>(c, data). length data))" by simp
next
  fix c :: char and data :: string
  assume "endswith data [c]"
  then obtain zs where "data = zs @ [c]"
    by (auto simp: endswith_def suffix_def)
  then have "length (rstrip data c) \<le> length zs"
    using length_dropWhile_le [of "\<lambda>x. x = c" "rev zs"] by (simp add: rstrip_def)
  with \<open>data = zs @ [c]\<close>
  show "((c, rstrip data c), (c, data)) \<in> measure (\<lambda>(c, data). length data)"
    by simp
qed

declare strip_while.simps [simp del]

definition strip_trailing_crnl :: "string \<Rightarrow> string" where
  "strip_trailing_crnl data = strip_while CR (strip_while LF data)"

text \<open>\<open>split_file\<close> returns a list of rows when it finds a line ending, and the string
  itself otherwise. Both are iterated and measured by the callers: iterating a string
  yields its characters, each a string of length one, and its \<open>len\<close> is the number of
  characters.\<close>

datatype pyrows = RowList "string list" | RowStr string

fun iter_rows :: "pyrows \<Rightarrow> string list" where
  "iter_rows (RowList rows) = rows"
| "iter_rows (RowStr data) = map (\<lambda>c. [c]) data"

fun len_rows :: "pyrows \<Rightarrow> nat" where
  "len_rows (RowList rows) = length rows"
| "len_rows (RowStr data) = length data"

definition split_file :: "string \<Rightarrow> pyrows" where
  "split_file data0 =
     (let data = strip_trailing_crnl data0 in
      if py_in [CR, LF] data then RowList (str_split data [CR, LF])
      else if py_in [LF] data then RowList (str_split data [LF])
      else if py_in [CR] data then RowList (str_split data [CR])
      else RowStr data)"

definition more_than_one_row :: "pyrows \<Rightarrow> bool" where
  "more_than_one_row rows = (len_rows rows > 1)"

text \<open>The loop of \<open>split_row\<close>, with its three local variables.\<close>

fun split_row_loop ::
  "string \<Rightarrow> string \<Rightarrow> string \<Rightarrow> string list \<Rightarrow> string \<Rightarrow> bool \<Rightarrow> string list \<times> string \<times> bool" where
  "split_row_loop [] delim quotechar cells current_cell in_quotes =
     (cells, current_cell, in_quotes)"
| "split_row_loop (c # row) delim quotechar cells current_cell in_quotes =
     (if [c] = delim \<and> \<not> in_quotes
      then split_row_loop row delim quotechar (cells @ [current_cell]) [] in_quotes
      else if [c] = quotechar
      then split_row_loop row delim quotechar cells (current_cell @ [c]) (\<not> in_quotes)
      else split_row_loop row delim quotechar cells (current_cell @ [c]) in_quotes)"

text \<open>The \<open>quotechar\<close> of \<open>split_row\<close> is a string or \<open>None\<close>.\<close>

fun split_row :: "string \<Rightarrow> string \<Rightarrow> string option \<Rightarrow> error + string list" where
  "split_row row delim None = py_split row delim"
| "split_row row delim (Some quotechar) =
     (if \<not> py_in quotechar row then py_split row delim
      else (case split_row_loop row delim quotechar [] [] False of
              (cells, current_cell, in_quotes) \<Rightarrow>
                Inr (if current_cell \<noteq> [] then cells @ [current_cell] else cells)))"

text \<open>The naive delimiter split, written from the specification: the row is cut at every
  occurrence of the delimiter character, with no quote awareness.\<close>

fun naive_split :: "char \<Rightarrow> string \<Rightarrow> string list" where
  "naive_split d [] = [[]]"
| "naive_split d (c # cs) =
     (if c = d then [] # naive_split d cs
      else (c # hd (naive_split d cs)) # tl (naive_split d cs))"

section \<open>The escape-character pre-check\<close>

text \<open>Modelled from the spec: \<open>pairwise\<close> of common/utils.py, which is not among the
  sources; the specification says that every adjacent character pair is scanned.\<close>

fun pairwise_list :: "'a list \<Rightarrow> ('a \<times> 'a) list" where
  "pairwise_list (u # v # xs) = (u, v) # pairwise_list (v # xs)"
| "pairwise_list xs = []"

text \<open>\<open>is_potential_escapechar\<close> of common/escape.py is not among the sources either. It is a
  parameter \<open>esc\<close> of the model: \<open>esc u encoding\<close> says whether the character \<open>u\<close> is a
  plausible escape character under the encoding.\<close>

type_synonym escape_test = "char \<Rightarrow> string \<Rightarrow> bool"

text \<open>An instance of the parameter for concrete runs: the backslash is the only plausible
  escape character.\<close>

definition backslash_only :: escape_test where
  "backslash_only u encoding = (u = BACKSLASH)"

fun escape_scan :: "escape_test \<Rightarrow> (char \<times> char) list \<Rightarrow> string \<Rightarrow> string \<Rightarrow> string \<Rightarrow> bool" where
  "escape_scan esc [] encoding delim quotechar = False"
| "escape_scan esc ((u, v) # pairs) encoding delim quotechar =
     (if ([v] = delim \<or> [v] = quotechar) \<and> esc u encoding then True
      else escape_scan esc pairs encoding delim quotechar)"

definition maybe_has_escapechar :: "escape_test \<Rightarrow> string \<Rightarrow> string \<Rightarrow> string \<Rightarrow> string \<Rightarrow> bool" where
  "maybe_has_escapechar esc data encoding delim quotechar =
     (if \<not> py_in delim data \<and> \<not> py_in quotechar data then False
      else escape_scan esc (pairwise_list data) encoding delim quotechar)"

section \<open>Predicates on rows\<close>

definition every_row_has_delim :: "pyrows \<Rightarrow> string \<Rightarrow> bool" where
  "every_row_has_delim rows delim = list_all (\<lambda>row. has_delimiter row delim) (iter_rows rows)"

text \<open>The character classes of the regular expressions.\<close>

definition alnum :: "char \<Rightarrow> bool" where
  "alnum c = (c \<in> set ''abcdefghijklmnopqrstuvwxyzABCDEFGHIJKLMNOPQRSTUVWXYZ0123456789'')"

text \<open>\<open>regex.fullmatch("[a-zA-Z0-9\.\_\&\-\@\+\%\(\)\ \/]+", cell)\<close>\<close>

definition is_elementary :: "string \<Rightarrow> bool" where
  "is_elementary cell =
     (cell \<noteq> [] \<and> list_all (\<lambda>c. alnum c \<or> c \<in> set ''._&-@+%() /'') cell)"

fun multiple_cell_per_row_loop :: "string list \<Rightarrow> string \<Rightarrow> string option \<Rightarrow> error + bool" where
  "multiple_cell_per_row_loop [] delim quotechar = Inr True"
| "multiple_cell_per_row_loop (row # rows) delim quotechar =
     (case split_row row delim quotechar of
        Inl e \<Rightarrow> Inl e
      | Inr cells \<Rightarrow>
          if length cells = 1 then Inr False
          else multiple_cell_per_row_loop rows delim quotechar)"

definition multiple_cell_per_row :: "pyrows \<Rightarrow> string \<Rightarrow> string option \<Rightarrow> error + bool" where
  "multiple_cell_per_row rows delim quotechar =
     multiple_cell_per_row_loop (iter_rows rows) delim quotechar"

fun even_rows_loop :: "string list \<Rightarrow> string \<Rightarrow> string option \<Rightarrow> nat set \<Rightarrow> error + nat set" where
  "even_rows_loop [] delim quotechar cells_per_row = Inr cells_per_row"
| "even_rows_loop (row # rows) delim quotechar cells_per_row =
     (case split_row row delim quotechar of
        Inl e \<Rightarrow> Inl e
      | Inr cells \<Rightarrow> even_rows_loop rows delim quotechar (insert (length cells) cells_per_row))"

definition even_rows :: "pyrows \<Rightarrow> string \<Rightarrow> string option \<Rightarrow> error + bool" where
  "even_rows rows delim quotechar =
     (case even_rows_loop (iter_rows rows) delim quotechar {} of
        Inl e \<Rightarrow> Inl e
      | Inr cells_per_row \<Rightarrow> Inr (card cells_per_row = 1))"

section \<open>Form testers\<close>

text \<open>
  A tester returns the pair \<open>(status, error)\<close> of a flag and a reason code, \<open>None\<close> on a
  match. The first statement of every tester, \<open>is_form_k.ID = k\<close>, stores the attribute
  \<open>ID\<close> on the decorated function of that name, which \<open>detect_form\<close> reads later. The set
  of the functions that carry the attribute is therefore threaded through every call. A
  call can also end in an exception.
\<close>

type_synonym verdict = "bool \<times> string option"
type_synonym ids = "nat set"
type_synonym 'a call = "ids \<Rightarrow> (error + 'a) \<times> ids"
type_synonym tester = "string \<Rightarrow> string \<Rightarrow> string \<Rightarrow> string \<Rightarrow> verdict call"

definition ret :: "'a \<Rightarrow> 'a call" where
  "ret x ids = (Inr x, ids)"

definition pure_call :: "error + 'a \<Rightarrow> 'a call" where
  "pure_call r ids = (r, ids)"

definition call_bind :: "'a call \<Rightarrow> ('a \<Rightarrow> 'b call) \<Rightarrow> 'b call" where
  "call_bind m f ids =
     (case m ids of
        (Inl e, ids') \<Rightarrow> (Inl e, ids')
      | (Inr x, ids') \<Rightarrow> f x ids')"

definition set_ID :: "nat \<Rightarrow> unit call" where
  "set_ID k ids = (Inr (), insert k ids)"

definition get_ID :: "nat \<Rightarrow> ids \<Rightarrow> error + nat" where
  "get_ID k ids = (if k \<in> ids then Inr k else Inl AttributeError)"

definition form_escape_wrapper :: "escape_test \<Rightarrow> tester \<Rightarrow> tester" where
  "form_escape_wrapper esc form_func data encoding delim quotechar =
     (if maybe_has_escapechar esc data encoding delim quotechar
      then ret (False, Some ''maybe_escape'')
      else form_func data encoding delim quotechar)"

text \<open>A loop body either returns from the tester or goes on with the local variables.\<close>

datatype 'a loop = Return verdict | Continue 'a

text \<open>The four checks that open \<open>is_form_1\<close>, \<open>2\<close>, \<open>4\<close>, \<open>8\<close>, \<open>10\<close> and \<open>11\<close>, in the order
  of the source; \<open>quotechar\<close> is the one handed to \<open>multiple_cell_per_row\<close> and
  \<open>even_rows\<close>.\<close>

definition row_checks :: "pyrows \<Rightarrow> string \<Rightarrow> string option \<Rightarrow> error + unit loop" where
  "row_checks rows delim quotechar =
     (if \<not> every_row_has_delim rows delim then Inr (Return (False, Some ''no_delim''))
      else case multiple_cell_per_row rows delim quotechar of
        Inl e \<Rightarrow> Inl e
      | Inr multiple \<Rightarrow>
          if \<not> multiple then Inr (Return (False, Some ''single_cell''))
          else case even_rows rows delim quotechar of
            Inl e \<Rightarrow> Inl e
          | Inr uniform \<Rightarrow>
              if \<not> uniform then Inr (Return (False, Some ''uneven_rows''))
              else if \<not> more_than_one_row rows then Inr (Return (False, Some ''single_row''))
              else Inr (Continue ()))"

subsection \<open>Forms recognised by the start of the file\<close>

definition is_form_13_func :: tester where
  "is_form_13_func data encoding delim quotechar =
     call_bind (set_ID 13) (\<lambda>_. ret
       (if \<not> startswith data ''what,kind,bundleId,bundleVersion,description,time''
        then (False, Some ''no_match'')
        else if quotechar = []
        then (if py_in [DQ] data then (False, Some ''has_quote'') else (True, None))
        else if quotechar = [DQ]
        then (if \<not> py_in [DQ] data then (False, Some ''has_no_quote'') else (True, None))
        else (True, None)))"

definition is_form_13 :: "escape_test \<Rightarrow> tester" where
  "is_form_13 esc = form_escape_wrapper esc is_form_13_func"

definition is_form_14_func :: tester where
  "is_form_14_func data encoding delim quotechar =
     call_bind (set_ID 14) (\<lambda>_. ret
       (if startswith data ''Format is tab separated'' then (True, None)
        else (False, Some ''no_match'')))"

definition is_form_14 :: "escape_test \<Rightarrow> tester" where
  "is_form_14 esc = form_escape_wrapper esc is_form_14_func"

definition is_form_15_func :: tester where
  "is_form_15_func data encoding delim quotechar =
     call_bind (set_ID 15) (\<lambda>_. ret
       (if startswith data ''Fornecedor;'' then (True, None)
        else (False, Some ''no_match'')))"

definition is_form_15 :: "escape_test \<Rightarrow> tester" where
  "is_form_15 esc = form_escape_wrapper esc is_form_15_func"

text \<open>\<open>regex.IGNORECASE\<close> on the characters of the model: the letters A to Z match their
  lower-case counterparts.\<close>

definition lower :: "char \<Rightarrow> char" where
  "lower c = (if c \<in> set ''ABCDEFGHIJKLMNOPQRSTUVWXYZ'' then char_of (of_char c + (32::nat)) else c)"

definition startswith_ignorecase :: "string \<Rightarrow> string \<Rightarrow> bool" where
  "startswith_ignorecase s p = prefix (map lower p) (map lower s)"

definition is_form_17_func :: tester where
  "is_form_17_func data encoding delim quotechar =
     call_bind (set_ID 17) (\<lambda>_. ret
       (if \<not> startswith_ignorecase data
            (''Department Family,Entity,Date,Expense Type,Expense Area,''
             @ ''Supplier,Transaction Number,Amount,VAT Registration Number'')
        then (False, Some ''no_match'')
        else if py_in ([SQ] @ '','' @ [SQ]) data then (False, Some ''single_quote'')
        else if quotechar = [DQ]
        then (if \<not> (py_in ([DQ] @ '','') data \<or> py_in ('','' @ [DQ]) data)
              then (False, Some ''no_qoute'') else (True, None))
        else if quotechar = []
        then (if py_in [DQ] data then (False, Some ''has_quote'') else (True, None))
        else (False, Some ''unexpected_quote'')))"

definition is_form_17 :: "escape_test \<Rightarrow> tester" where
  "is_form_17 esc = form_escape_wrapper esc is_form_17_func"

definition is_form_18_func :: tester where
  "is_form_18_func data encoding delim quotechar =
     call_bind (set_ID 18) (\<lambda>_. ret
       (if \<not> startswith data ''CPS outcomes by principal offence''
        then (False, Some ''no_match'')
        else if py_in ([SQ] @ '','' @ [SQ]) data then (False, Some ''single_quote'')
        else if quotechar = [DQ]
        then (if \<not> (py_in ([DQ] @ '','') data \<or> py_in ('','' @ [DQ]) data)
              then (False, Some ''no_quote'') else (True, None))
        else if quotechar = []
        then (if py_in [DQ] data then (False, Some ''has_quote'') else (True, None))
        else (False, Some ''unexpected_quote'')))"

definition is_form_18 :: "escape_test \<Rightarrow> tester" where
  "is_form_18 esc = form_escape_wrapper esc is_form_18_func"

definition is_form_19_func :: tester where
  "is_form_19_func data encoding delim quotechar =
     call_bind (set_ID 19) (\<lambda>_. ret
       (if \<not> startswith data ''RecordKey,SurveyKey,SurveyName''
        then (False, Some ''no_match'')
        else if py_in ([SQ] @ '','' @ [SQ]) data then (False, Some ''single_quote'')
        else if quotechar = [DQ]
        then (if \<not> (py_in ([DQ] @ '','') data \<or> py_in ('','' @ [DQ]) data)
              then (False, Some ''no_quote'') else (True, None))
        else if quotechar = []
        then (if py_in [DQ] data then (False, Some ''has_quote'') else (True, None))
        else (False, Some ''unexpected_quote'')))"

definition is_form_19 :: "escape_test \<Rightarrow> tester" where
  "is_form_19 esc = form_escape_wrapper esc is_form_19_func"

text \<open>\<open>is_form_5\<close>: \<open>idxs\<close> are the positions of the single quotes, and
  \<open>data[idxs[0] : idxs[1] + 1]\<close> is the slice between two of them, both included.\<close>

definition is_form_5_func :: tester where
  "is_form_5_func data encoding delim quotechar =
     call_bind (set_ID 5) (\<lambda>_. ret
       (if startswith data '';Originally developed by Anthony Bowden'' then (True, None)
        else if py_in [DQ] data then (False, Some ''unexpected'')
        else if py_in [SQ] data
        then (let idxs = filter (\<lambda>i. data ! i = SQ) [0 ..< length data] in
              if \<not> length idxs = 2 then (False, Some ''unexpected'')
              else if \<not> take (idxs ! 1 + 1 - idxs ! 0) (drop (idxs ! 0) data)
                          = [SQ] @ ''Readme.txt'' @ [SQ]
              then (False, Some ''unexpected'')
              else (False, Some ''not_railsim''))
        else (False, Some ''not_railsim'')))"

definition is_form_5 :: "escape_test \<Rightarrow> tester" where
  "is_form_5 esc = form_escape_wrapper esc is_form_5_func"

text \<open>\<open>is_form_12\<close>: the regular expression
  \<open>,(male|female),([a-zA-Z0-9]+@[a-zA-Z0-9]+.com)\<close> is searched for anywhere in the
  data. \<open>alnums_dot_com\<close> matches \<open>[a-zA-Z0-9]*.com\<close> at the start of a string, where the
  dot is any character but a line feed; \<open>email_at\<close> matches the second group at the
  start of a string.\<close>

fun alnums_dot_com :: "string \<Rightarrow> bool" where
  "alnums_dot_com [] = False"
| "alnums_dot_com (c # cs) =
     ((c \<noteq> LF \<and> prefix ''com'' cs) \<or> (alnum c \<and> alnums_dot_com cs))"

definition email_at :: "string \<Rightarrow> bool" where
  "email_at s =
     (case dropWhile alnum s of
        [] \<Rightarrow> False
      | c # rest \<Rightarrow>
          takeWhile alnum s \<noteq> [] \<and> c = CHR ''@''
          \<and> (case rest of [] \<Rightarrow> False | a # as \<Rightarrow> alnum a \<and> alnums_dot_com as))"

definition form_12_regex_at :: "string \<Rightarrow> bool" where
  "form_12_regex_at s =
     ((prefix '',male,'' s \<and> email_at (drop 6 s))
      \<or> (prefix '',female,'' s \<and> email_at (drop 8 s)))"

fun regex_search :: "(string \<Rightarrow> bool) \<Rightarrow> string \<Rightarrow> bool" where
  "regex_search match_at [] = match_at []"
| "regex_search match_at (c # cs) = (match_at (c # cs) \<or> regex_search match_at cs)"

definition is_form_12_func :: tester where
  "is_form_12_func data encoding delim quotechar =
     call_bind (set_ID 12) (\<lambda>_. ret
       (if py_in [DQ] data \<or> py_in [SQ] data then (False, Some ''has_quote'')
        else if regex_search form_12_regex_at data then (True, None)
        else (False, Some ''no_match'')))"

definition is_form_12 :: "escape_test \<Rightarrow> tester" where
  "is_form_12 esc = form_escape_wrapper esc is_form_12_func"

subsection \<open>Single-column forms\<close>

text \<open>\<open>is_form_6\<close> searches a row for a character outside \<open>[A-Za-z0-9.\_&-]\<close>, and
  \<open>is_form_9\<close> searches the inside of a quoted row for one outside \<open>[A-Za-z0-9.\_&\- ]\<close>.\<close>

fun form_6_rows :: "string list \<Rightarrow> verdict" where
  "form_6_rows [] = (True, None)"
| "form_6_rows (row # rows) =
     (if is_any_quoted_cell row then (False, Some ''quoted_cell'')
      else if list_ex (\<lambda>c. \<not> (alnum c \<or> c \<in> set ''._&-'')) row then (False, Some ''non_elementary'')
      else form_6_rows rows)"

definition is_form_6_func :: tester where
  "is_form_6_func data encoding delim quotechar =
     call_bind (set_ID 6) (\<lambda>_. ret
       (let rows = split_file data in
        if \<not> more_than_one_row rows then (False, Some ''single_row'')
        else form_6_rows (iter_rows rows)))"

definition is_form_6 :: "escape_test \<Rightarrow> tester" where
  "is_form_6 esc = form_escape_wrapper esc is_form_6_func"

fun form_9_rows :: "string list \<Rightarrow> string \<Rightarrow> verdict" where
  "form_9_rows [] quotechar = (True, None)"
| "form_9_rows (row # rows) quotechar =
     (if \<not> is_quoted_cell row quotechar then (False, Some ''not_quoted'')
      else if list_ex (\<lambda>c. \<not> (alnum c \<or> c \<in> set ''._&- '')) (interior row)
      then (False, Some ''non_elementary'')
      else form_9_rows rows quotechar)"

definition is_form_9_func :: tester where
  "is_form_9_func data encoding delim quotechar =
     call_bind (set_ID 9) (\<lambda>_. ret
       (let rows = split_file data in
        if \<not> more_than_one_row rows then (False, Some ''single_row'')
        else form_9_rows (iter_rows rows) quotechar))"

definition is_form_9 :: "escape_test \<Rightarrow> tester" where
  "is_form_9 esc = form_escape_wrapper esc is_form_9_func"

subsection \<open>Forms with several cells per row\<close>

text \<open>Each tester walks over the rows and, within a row, over its cells. The functions
  \<open>form_k_cells\<close> are the inner loops and \<open>form_k_rows\<close> the outer ones, with the
  statements after the loop at the end of the rows.\<close>

fun form_1_cells :: "string list \<Rightarrow> string \<Rightarrow> unit loop" where
  "form_1_cells [] quotechar = Continue ()"
| "form_1_cells (cell # cells) quotechar =
     (if is_any_empty cell then Return (False, Some ''empty_cell'')
      else if \<not> is_quoted_cell cell quotechar then Return (False, Some ''unquoted_cell'')
      else if has_nested_quotes cell quotechar then Return (False, Some ''nested_quotes'')
      else form_1_cells cells quotechar)"

fun form_1_rows :: "string list \<Rightarrow> string \<Rightarrow> string \<Rightarrow> error + verdict" where
  "form_1_rows [] delim quotechar = Inr (True, None)"
| "form_1_rows (row # rows) delim quotechar =
     (case split_row row delim (Some quotechar) of
        Inl e \<Rightarrow> Inl e
      | Inr cells \<Rightarrow>
          (case form_1_cells cells quotechar of
             Return v \<Rightarrow> Inr v
           | Continue _ \<Rightarrow> form_1_rows rows delim quotechar))"

definition is_form_1_func :: tester where
  "is_form_1_func data encoding delim quotechar =
     call_bind (set_ID 1) (\<lambda>_. pure_call
       (let rows = split_file data in
        case row_checks rows delim (Some quotechar) of
          Inl e \<Rightarrow> Inl e
        | Inr (Return v) \<Rightarrow> Inr v
        | Inr (Continue _) \<Rightarrow> form_1_rows (iter_rows rows) delim quotechar))"

definition is_form_1 :: "escape_test \<Rightarrow> tester" where
  "is_form_1 esc = form_escape_wrapper esc is_form_1_func"

fun form_10_cells :: "string list \<Rightarrow> string \<Rightarrow> nat \<Rightarrow> nat loop" where
  "form_10_cells [] quotechar quoted_empty_count = Continue quoted_empty_count"
| "form_10_cells (cell # cells) quotechar quoted_empty_count =
     (if is_empty_unquoted cell then Return (False, Some ''empty_unquoted'')
      else let quoted_empty_count =
                 (if is_empty_quoted cell quotechar then quoted_empty_count + 1
                  else quoted_empty_count) in
        if \<not> is_quoted_cell cell quotechar then Return (False, Some ''unquoted_cell'')
        else if has_nested_quotes cell quotechar then Return (False, Some ''nested_quotes'')
        else form_10_cells cells quotechar quoted_empty_count)"

fun form_10_rows :: "string list \<Rightarrow> string \<Rightarrow> string \<Rightarrow> nat \<Rightarrow> error + verdict" where
  "form_10_rows [] delim quotechar quoted_empty_count =
     Inr (if quoted_empty_count = 0 then (False, Some ''no_empty'') else (True, None))"
| "form_10_rows (row # rows) delim quotechar quoted_empty_count =
     (case split_row row delim (Some quotechar) of
        Inl e \<Rightarrow> Inl e
      | Inr cells \<Rightarrow>
          (case form_10_cells cells quotechar quoted_empty_count of
             Return v \<Rightarrow> Inr v
           | Continue n \<Rightarrow> form_10_rows rows delim quotechar n))"

definition is_form_10_func :: tester where
  "is_form_10_func data encoding delim quotechar =
     call_bind (set_ID 10) (\<lambda>_. pure_call
       (let rows = split_file data in
        case row_checks rows delim (Some quotechar) of
          Inl e \<Rightarrow> Inl e
        | Inr (Return v) \<Rightarrow> Inr v
        | Inr (Continue _) \<Rightarrow> form_10_rows (iter_rows rows) delim quotechar 0))"

definition is_form_10 :: "escape_test \<Rightarrow> tester" where
  "is_form_10 esc = form_escape_wrapper esc is_form_10_func"

fun form_2_cells :: "string list \<Rightarrow> unit loop" where
  "form_2_cells [] = Continue ()"
| "form_2_cells (cell # cells) =
     (if is_empty_unquoted cell then Return (False, Some ''empty_unquoted'')
      else if is_any_quoted_cell cell then Return (False, Some ''quoted_cell'')
      else if is_any_partial_quoted_cell cell then Return (False, Some ''partial_quoted_cell'')
      else if \<not> is_elementary cell then Return (False, Some ''non_elementary'')
      else form_2_cells cells)"

fun form_2_rows :: "string list \<Rightarrow> string \<Rightarrow> error + verdict" where
  "form_2_rows [] delim = Inr (True, None)"
| "form_2_rows (row # rows) delim =
     (case split_row row delim None of
        Inl e \<Rightarrow> Inl e
      | Inr cells \<Rightarrow>
          (case form_2_cells cells of
             Return v \<Rightarrow> Inr v
           | Continue _ \<Rightarrow> form_2_rows rows delim))"

definition is_form_2_func :: "escape_test \<Rightarrow> tester" where
  "is_form_2_func esc data encoding delim quotechar =
     call_bind (set_ID 2) (\<lambda>_.
     call_bind (is_form_13 esc data encoding delim quotechar) (\<lambda>form_13.
     if fst form_13 then ret (False, Some ''form_13'') else
     call_bind (is_form_18 esc data encoding delim quotechar) (\<lambda>form_18.
     if fst form_18 then ret (False, Some ''form_18'') else
     call_bind (is_form_17 esc data encoding delim quotechar) (\<lambda>form_17.
     if fst form_17 then ret (False, Some ''form_17'') else
     pure_call
       (let rows = split_file data in
        case row_checks rows delim None of
          Inl e \<Rightarrow> Inl e
        | Inr (Return v) \<Rightarrow> Inr v
        | Inr (Continue _) \<Rightarrow> form_2_rows (iter_rows rows) delim)))))"

definition is_form_2 :: "escape_test \<Rightarrow> tester" where
  "is_form_2 esc = form_escape_wrapper esc (is_form_2_func esc)"

fun form_4_cells :: "string list \<Rightarrow> string \<Rightarrow> string \<Rightarrow> bool \<Rightarrow> bool loop" where
  "form_4_cells [] delim quotechar found_quoted_with_delim = Continue found_quoted_with_delim"
| "form_4_cells (cell # cells) delim quotechar found_quoted_with_delim =
     (if is_quoted_cell cell quotechar \<and> \<not> has_delimiter cell delim
      then Return (False, Some ''quoted_no_delim'')
      else let found_quoted_with_delim =
                 (if is_quoted_cell cell quotechar then True else found_quoted_with_delim) in
        if is_any_empty cell then Return (False, Some ''empty_cell'')
        else if (\<not> is_quoted_cell cell quotechar) \<and> \<not> is_elementary cell
        then Return (False, Some ''non_elementary'')
        else form_4_cells cells delim quotechar found_quoted_with_delim)"

fun form_4_rows :: "string list \<Rightarrow> string \<Rightarrow> string \<Rightarrow> bool \<Rightarrow> error + verdict" where
  "form_4_rows [] delim quotechar found_quoted_with_delim =
     Inr (if \<not> found_quoted_with_delim then (False, Some ''no_quoted_w_delim'')
          else (True, None))"
| "form_4_rows (row # rows) delim quotechar found_quoted_with_delim =
     (if is_quoted_cell row quotechar \<and> \<not> py_in quotechar (interior row)
      then Inr (False, Some ''quoted_row'')
      else case split_row row delim (Some quotechar) of
        Inl e \<Rightarrow> Inl e
      | Inr cells \<Rightarrow>
          (case form_4_cells cells delim quotechar found_quoted_with_delim of
             Return v \<Rightarrow> Inr v
           | Continue found \<Rightarrow> form_4_rows rows delim quotechar found))"

definition is_form_4_func :: "escape_test \<Rightarrow> tester" where
  "is_form_4_func esc data encoding delim quotechar =
     call_bind (set_ID 4) (\<lambda>_.
     call_bind (is_form_18 esc data encoding delim quotechar) (\<lambda>form_18.
     if fst form_18 then ret (False, Some ''form_18'') else
     call_bind (is_form_17 esc data encoding delim quotechar) (\<lambda>form_17.
     if fst form_17 then ret (False, Some ''form_17'') else
     pure_call
       (let rows = split_file data in
        case row_checks rows delim (Some quotechar) of
          Inl e \<Rightarrow> Inl e
        | Inr (Return v) \<Rightarrow> Inr v
        | Inr (Continue _) \<Rightarrow> form_4_rows (iter_rows rows) delim quotechar False))))"

definition is_form_4 :: "escape_test \<Rightarrow> tester" where
  "is_form_4 esc = form_escape_wrapper esc (is_form_4_func esc)"

text \<open>\<open>is_form_11\<close>: an empty cell is counted and the rest of the loop body skipped
  (\<open>continue\<close>).\<close>

fun form_11_cells :: "string list \<Rightarrow> nat \<Rightarrow> nat loop" where
  "form_11_cells [] num_empty = Continue num_empty"
| "form_11_cells (cell # cells) num_empty =
     (if is_empty_unquoted cell then form_11_cells cells (num_empty + 1)
      else if is_any_quoted_cell cell then Return (False, Some ''quoted_cell'')
      else if is_any_partial_quoted_cell cell then Return (False, Some ''partial_quoted_cell'')
      else if \<not> is_elementary cell then Return (False, Some ''non_elementary'')
      else form_11_cells cells num_empty)"

fun form_11_rows :: "string list \<Rightarrow> string \<Rightarrow> nat \<Rightarrow> error + verdict" where
  "form_11_rows [] delim total_empty =
     Inr (if total_empty = 0 then (False, Some ''no_empty'') else (True, None))"
| "form_11_rows (row # rows) delim total_empty =
     (case split_row row delim None of
        Inl e \<Rightarrow> Inl e
      | Inr cells \<Rightarrow>
          (case form_11_cells cells 0 of
             Return v \<Rightarrow> Inr v
           | Continue num_empty \<Rightarrow>
               if num_empty > 1 then Inr (False, Some ''many_empty'')
               else form_11_rows rows delim (total_empty + num_empty)))"

definition is_form_11_func :: "escape_test \<Rightarrow> tester" where
  "is_form_11_func esc data encoding delim quotechar =
     call_bind (set_ID 11) (\<lambda>_.
     call_bind (is_form_13 esc data encoding delim quotechar) (\<lambda>form_13.
     if fst form_13 then ret (False, Some ''form_13'') else
     call_bind (is_form_17 esc data encoding delim quotechar) (\<lambda>form_17.
     if fst form_17 then ret (False, Some ''form_17'') else
     pure_call
       (let rows = split_file data in
        case row_checks rows delim None of
          Inl e \<Rightarrow> Inl e
        | Inr (Return v) \<Rightarrow> Inr v
        | Inr (Continue _) \<Rightarrow> form_11_rows (iter_rows rows) delim 0))))"

definition is_form_11 :: "escape_test \<Rightarrow> tester" where
  "is_form_11 esc = form_escape_wrapper esc (is_form_11_func esc)"

text \<open>\<open>is_form_8\<close> counts the quoted and the unquoted cells.\<close>

fun form_8_cells :: "string list \<Rightarrow> string \<Rightarrow> nat \<times> nat \<Rightarrow> (nat \<times> nat) loop" where
  "form_8_cells [] quotechar counts = Continue counts"
| "form_8_cells (cell # cells) quotechar (quoted_cells, unquoted_cells) =
     (if is_any_empty cell then Return (False, Some ''empty_cell'')
      else if is_quoted_cell cell quotechar
      then form_8_cells cells quotechar (quoted_cells + 1, unquoted_cells)
      else if \<not> is_any_quoted_cell cell
      then (if \<not> is_elementary cell then Return (False, Some ''non_elementary'')
            else form_8_cells cells quotechar (quoted_cells, unquoted_cells + 1))
      else form_8_cells cells quotechar (quoted_cells, unquoted_cells))"

fun form_8_rows :: "string list \<Rightarrow> string \<Rightarrow> string \<Rightarrow> nat \<times> nat \<Rightarrow> error + verdict" where
  "form_8_rows [] delim quotechar (quoted_cells, unquoted_cells) =
     Inr (if quoted_cells = 0 \<or> unquoted_cells = 0
          then (False, Some ''not quoted/unquoted mix'') else (True, None))"
| "form_8_rows (row # rows) delim quotechar counts =
     (case split_row row delim (Some quotechar) of
        Inl e \<Rightarrow> Inl e
      | Inr cells \<Rightarrow>
          (case form_8_cells cells quotechar counts of
             Return v \<Rightarrow> Inr v
           | Continue counts' \<Rightarrow> form_8_rows rows delim quotechar counts'))"

text \<open>The statements of \<open>is_form_8\<close> that follow its calls of the sibling testers.\<close>

definition form_8_own :: "string \<Rightarrow> string \<Rightarrow> string \<Rightarrow> error + verdict" where
  "form_8_own data delim quotechar =
     (let rows = split_file data in
      case row_checks rows delim (Some quotechar) of
        Inl e \<Rightarrow> Inl e
      | Inr (Return v) \<Rightarrow> Inr v
      | Inr (Continue _) \<Rightarrow> form_8_rows (iter_rows rows) delim quotechar (0, 0))"

definition is_form_8_func :: "escape_test \<Rightarrow> tester" where
  "is_form_8_func esc data encoding delim quotechar =
     call_bind (set_ID 8) (\<lambda>_.
     call_bind (is_form_4 esc data encoding delim quotechar) (\<lambda>form_4.
     if fst form_4 then ret (False, Some ''form_4'') else
     call_bind (is_form_13 esc data encoding delim quotechar) (\<lambda>form_13.
     if fst form_13 then ret (False, Some ''form_13'') else
     call_bind (is_form_18 esc data encoding delim quotechar) (\<lambda>form_18.
     if fst form_18 then ret (False, Some ''form_18'') else
     call_bind (is_form_17 esc data encoding delim quotechar) (\<lambda>form_17.
     if fst form_17 then ret (False, Some ''form_17'') else
     pure_call (form_8_own data delim quotechar))))))"

definition is_form_8 :: "escape_test \<Rightarrow> tester" where
  "is_form_8 esc = form_escape_wrapper esc (is_form_8_func esc)"

text \<open>\<open>is_form_7\<close> reads \<open>row[0]\<close> and \<open>row[-1]\<close>, which raise \<open>IndexError\<close> on an empty row,
  and ends by calling \<open>is_form_2\<close> on the rows without their first and last characters.\<close>

fun form_7_quoted :: "string list \<Rightarrow> string \<Rightarrow> error + unit loop" where
  "form_7_quoted [] quotechar = Inr (Continue ())"
| "form_7_quoted (row # rows) quotechar =
     (if row = [] then Inl IndexError
      else if \<not> ([hd row] = quotechar \<and> [last row] = quotechar)
      then Inr (Return (False, Some ''not_quoted''))
      else form_7_quoted rows quotechar)"

definition is_form_7_func :: "escape_test \<Rightarrow> tester" where
  "is_form_7_func esc data encoding delim quotechar =
     call_bind (set_ID 7) (\<lambda>_.
     let rows = split_file data in
     if \<not> every_row_has_delim rows delim then ret (False, Some ''no_delim'')
     else if \<not> more_than_one_row rows then ret (False, Some ''single_row'')
     else call_bind (pure_call (form_7_quoted (iter_rows rows) quotechar)) (\<lambda>quoted.
       case quoted of
         Return v \<Rightarrow> ret v
       | Continue _ \<Rightarrow>
           (let newrows = map interior (iter_rows rows) in
            is_form_2 esc (py_join [LF] newrows) encoding delim quotechar)))"

definition is_form_7 :: "escape_test \<Rightarrow> tester" where
  "is_form_7 esc = form_escape_wrapper esc (is_form_7_func esc)"

section \<open>The classification of a file\<close>

text \<open>An option dictionary and a parameter set are Python dictionaries from strings to
  strings, kept as association lists in insertion order.\<close>

type_synonym pydict = "(string \<times> string) list"

fun dict_set :: "string \<Rightarrow> string \<Rightarrow> pydict \<Rightarrow> pydict" where
  "dict_set k v [] = [(k, v)]"
| "dict_set k v ((k', v') # d) = (if k = k' then (k, v) # d else (k', v') # dict_set k v d)"

text \<open>\<open>dict_product\<close> for the option dictionaries of \<open>detect_form\<close>, whose keys are
  \<open>delim\<close> and \<open>quotechar\<close> in this order: the first key varies slowest.\<close>

definition dict_product :: "string list \<times> string list \<Rightarrow> pydict list" where
  "dict_product options =
     concat (map (\<lambda>d. map (\<lambda>q. [(''delim'', d), (''quotechar'', q)]) (snd options))
               (fst options))"

text \<open>\<open>record_form\<close> appends one line to the file \<open>form_<id>.json\<close>. The files are kept as
  the list of the lines written, each with the form number of its file.\<close>

type_synonym formlog = "(nat \<times> pydict) list"

definition record_form :: "nat \<Rightarrow> string \<Rightarrow> pydict \<Rightarrow> formlog \<Rightarrow> formlog" where
  "record_form form_id filename config log =
     log @ [(form_id, dict_set ''filename'' filename config)]"

text \<open>The catalogue \<open>forms\<close> of \<open>detect_form\<close>: each tester with the number in its name and
  its option dictionary. \<open>DELIMS\<close> is a Python set, iterated in an order that the
  program does not fix; the order is a parameter.\<close>

definition forms ::
  "escape_test \<Rightarrow> string list \<Rightarrow> (nat \<times> tester \<times> string list \<times> string list) list" where
  "forms esc DELIMS =
     (let option_dict_1 = (DELIMS, [[DQ], [SQ]]);
          option_dict_2 = (DELIMS, [[]]);
          option_dict_4 = ([[]], [[DQ], [SQ]]) in
      [(1, is_form_1 esc, option_dict_1),
       (2, is_form_2 esc, option_dict_2),
       (4, is_form_4 esc, option_dict_1),
       (5, is_form_5 esc, ['',''], [[]]),
       (6, is_form_6 esc, [[]], [[]]),
       (7, is_form_7 esc, option_dict_1),
       (8, is_form_8 esc, option_dict_1),
       (9, is_form_9 esc, option_dict_4),
       (10, is_form_10 esc, option_dict_1),
       (11, is_form_11 esc, option_dict_2),
       (12, is_form_12 esc, ['',''], [[]]),
       (13, is_form_13 esc, ['',''], [[DQ], []]),
       (14, is_form_14 esc, [[TAB]], [[]]),
       (15, is_form_15 esc, ['';''], [[]]),
       (17, is_form_17 esc, ['',''], [[], [DQ]]),
       (18, is_form_18 esc, ['',''], [[], [DQ]]),
       (19, is_form_19 esc, ['',''], [[], [DQ]])])"

text \<open>The state that \<open>detect_form\<close> changes: the \<open>ID\<close> attributes and the form files.\<close>

type_synonym world = "ids \<times> formlog"

text \<open>The inner loop of \<open>detect_form\<close> over the parameter sets of one tester. The call
  \<open>form_func(data, encoding, **opt)\<close> needs the keys \<open>delim\<close> and \<open>quotechar\<close>. Reading
  \<open>form_func.ID\<close> raises \<open>AttributeError\<close> when the attribute was never stored; the
  verbose message of a rejected combination reads it too. What is printed is left out.\<close>

fun try_options ::
  "nat \<Rightarrow> tester \<Rightarrow> pydict list \<Rightarrow> string \<Rightarrow> string \<Rightarrow> string \<Rightarrow> bool \<Rightarrow> bool
     \<Rightarrow> (nat \<times> pydict) list \<Rightarrow> world \<Rightarrow> (error + (nat \<times> pydict) list) \<times> world" where
  "try_options k form_func [] filename data encoding record_result verbose detected_forms w =
     (Inr detected_forms, w)"
| "try_options k form_func (opt # opts) filename data encoding record_result verbose
       detected_forms (ids, log) =
     (case (map_of opt ''delim'', map_of opt ''quotechar'') of
        (Some delim, Some quotechar) \<Rightarrow>
          (case form_func data encoding delim quotechar ids of
             (Inl e, ids') \<Rightarrow> (Inl e, (ids', log))
           | (Inr (status, err), ids') \<Rightarrow>
               if status then
                 (let opt' = dict_set ''escapechar'' [] opt in
                  case get_ID k ids' of
                    Inl e \<Rightarrow> (Inl e, (ids', log))
                  | Inr form_id \<Rightarrow>
                      try_options k form_func opts filename data encoding record_result verbose
                        (detected_forms @ [(form_id, opt')])
                        (ids', if record_result then record_form form_id filename opt' log
                               else log))
               else if verbose then
                 (case get_ID k ids' of
                    Inl e \<Rightarrow> (Inl e, (ids', log))
                  | Inr form_id \<Rightarrow>
                      try_options k form_func opts filename data encoding record_result verbose
                        detected_forms (ids', log))
               else try_options k form_func opts filename data encoding record_result verbose
                      detected_forms (ids', log))
      | _ \<Rightarrow> (Inl TypeError, (ids, log)))"

text \<open>The outer loop over the catalogue.\<close>

fun try_forms ::
  "(nat \<times> tester \<times> string list \<times> string list) list \<Rightarrow> string \<Rightarrow> string \<Rightarrow> string
     \<Rightarrow> bool \<Rightarrow> bool \<Rightarrow> (nat \<times> pydict) list \<Rightarrow> world
     \<Rightarrow> (error + (nat \<times> pydict) list) \<times> world" where
  "try_forms [] filename data encoding record_result verbose detected_forms w =
     (Inr detected_forms, w)"
| "try_forms ((k, form_func, options) # fs) filename data encoding record_result verbose
       detected_forms w =
     (case try_options k form_func (dict_product options) filename data encoding
             record_result verbose detected_forms w of
        (Inl e, w') \<Rightarrow> (Inl e, w')
      | (Inr detected_forms', w') \<Rightarrow>
          try_forms fs filename data encoding record_result verbose detected_forms' w')"

text \<open>The first component of what \<open>detect_form\<close> returns is \<open>"FAIL"\<close>, \<open>None\<close> or a form
  number.\<close>

datatype form_id = FAIL | NONE | FORM nat

text \<open>\<open>detect_form\<close>. The encoding and the result of \<open>load_file\<close> (the decoded text, or
  \<open>None\<close>) come from modules that are not among the sources and are arguments here.\<close>

definition detect_form ::
  "escape_test \<Rightarrow> string list \<Rightarrow> string \<Rightarrow> string option \<Rightarrow> string \<Rightarrow> bool \<Rightarrow> bool
     \<Rightarrow> world \<Rightarrow> (error + form_id \<times> pydict) \<times> world" where
  "detect_form esc DELIMS filename loaded encoding record_result verbose w =
     (case loaded of
        None \<Rightarrow> (Inr (FAIL, []), w)
      | Some data \<Rightarrow>
          (case try_forms (forms esc DELIMS) filename data encoding record_result verbose [] w of
             (Inl e, w') \<Rightarrow> (Inl e, w')
           | (Inr detected_forms, (ids, log)) \<Rightarrow>
               if length detected_forms = 0
               then (Inr (NONE, []),
                     (ids, if record_result then record_form 0 filename [] log else log))
               else if length detected_forms = 1
               then (Inr (FORM (fst (hd detected_forms)), snd (hd detected_forms)), (ids, log))
               else (Inl ValueError, (ids, log))))"

section \<open>Notions used in the statements\<close>

text \<open>Properties of a call: its result does not depend on the attributes stored before
  (\<open>stateless\<close>), it only adds attributes (\<open>grows\<close>), it adds attributes of the given
  functions only (\<open>within\<close>), it raises no exception (\<open>no_raise\<close>), it stores the
  attribute of the function \<open>k\<close> (\<open>marks\<close>), and a positive result comes with that
  attribute stored (\<open>owns\<close>).\<close>

definition stateless :: "'a call \<Rightarrow> bool" where
  "stateless c = (\<forall>ids ids'. fst (c ids) = fst (c ids'))"

definition grows :: "'a call \<Rightarrow> bool" where
  "grows c = (\<forall>ids. ids \<subseteq> snd (c ids))"

definition within :: "nat set \<Rightarrow> 'a call \<Rightarrow> bool" where
  "within S c = (\<forall>ids. snd (c ids) \<subseteq> ids \<union> S)"

definition no_raise :: "'a call \<Rightarrow> bool" where
  "no_raise c = (\<forall>ids. \<not> isl (fst (c ids)))"

definition marks :: "nat \<Rightarrow> 'a call \<Rightarrow> bool" where
  "marks k c = (\<forall>ids. k \<in> snd (c ids))"

definition owns :: "nat \<Rightarrow> verdict call \<Rightarrow> bool" where
  "owns k c = (\<forall>ids v ids'. c ids = (Inr (True, v), ids') \<longrightarrow> k \<in> ids')"

text \<open>A tester matches on a parameter set when its call returns a true status. The
  positive matches of a catalogue are its (form, parameter set) combinations that match,
  in the order of the catalogue, each with the \<open>escapechar\<close> entry that \<open>detect_form\<close>
  adds. \<open>records\<close> are the lines that \<open>record_form\<close> writes for them.\<close>

definition matched :: "tester \<Rightarrow> string \<Rightarrow> string \<Rightarrow> string \<Rightarrow> string \<Rightarrow> bool" where
  "matched form_func data encoding delim quotechar =
     (case fst (form_func data encoding delim quotechar {}) of
        Inl e \<Rightarrow> False
      | Inr (status, err) \<Rightarrow> status)"

definition hits :: "nat \<Rightarrow> tester \<Rightarrow> string \<Rightarrow> string \<Rightarrow> (string \<times> string) list \<Rightarrow> (nat \<times> pydict) list" where
  "hits k form_func data encoding pairs =
     map (\<lambda>(d, q). (k, [(''delim'', d), (''quotechar'', q), (''escapechar'', [])]))
       (filter (\<lambda>(d, q). matched form_func data encoding d q) pairs)"

definition positive_matches ::
  "(nat \<times> tester \<times> string list \<times> string list) list \<Rightarrow> string \<Rightarrow> string \<Rightarrow> (nat \<times> pydict) list" where
  "positive_matches fs data encoding =
     concat (map (\<lambda>(k, form_func, ds, qs). hits k form_func data encoding (List.product ds qs)) fs)"

definition records :: "bool \<Rightarrow> string \<Rightarrow> (nat \<times> pydict) list \<Rightarrow> formlog" where
  "records record_result filename ms =
     (if record_result then map (\<lambda>(k, opt). (k, dict_set ''filename'' filename opt)) ms else [])"

definition good :: "nat \<Rightarrow> tester \<Rightarrow> string \<Rightarrow> string \<Rightarrow> (string \<times> string) list \<Rightarrow> bool" where
  "good k form_func data encoding pairs =
     (\<forall>(d, q) \<in> set pairs.
        stateless (form_func data encoding d q) \<and> no_raise (form_func data encoding d q)
        \<and> owns k (form_func data encoding d q))"

text \<open>The verdict that the specification attaches to a list of matches: no form for none,
  the form and its parameters for exactly one, a fatal error for two or more.\<close>

definition verdict_of :: "(nat \<times> pydict) list \<Rightarrow> error + form_id \<times> pydict" where
  "verdict_of ms =
     (case ms of
        [] \<Rightarrow> Inr (NONE, [])
      | [(k, opt)] \<Rightarrow> Inr (FORM k, opt)
      | _ \<Rightarrow> Inl ValueError)"

text \<open>Every parameter set of the list has an empty \<open>escapechar\<close>.\<close>

definition escapechar_empty :: "(nat \<times> pydict) list \<Rightarrow> bool" where
  "escapechar_empty ms = list_all (\<lambda>(form_id, opt). map_of opt ''escapechar'' = Some []) ms"

named_theorems stateless_intros
named_theorems grows_intros
named_theorems within_intros
named_theorems no_raise_intros

section \<open>Properties of the splitters\<close>

lemma py_in_sublist: "py_in sub s \<longleftrightarrow> sublist sub s"
  by (induction s) (auto simp: sublist_Cons_right)

lemma naive_split_not_Nil: "naive_split d s \<noteq> []"
  by (induction s) auto

lemma split_from_naive:
  "split_from [d] cur s = (cur @ hd (naive_split d s)) # tl (naive_split d s)"
proof (induction s arbitrary: cur)
  case Nil
  show ?case by simp
next
  case (Cons c cs)
  show ?case
  proof (cases "c = d")
    case True
    then show ?thesis
      using Cons [of "[]"] naive_split_not_Nil [of d cs] by simp
  next
    case False
    then show ?thesis using Cons [of "cur @ [c]"] by simp
  qed
qed

lemma str_split_naive: "str_split s [d] = naive_split d s"
  using split_from_naive [of d "[]" s] naive_split_not_Nil [of d s]
  by (simp add: str_split_def)

lemma sublist_trans: "sublist x y \<Longrightarrow> sublist y z \<Longrightarrow> sublist x z"
  by (rule sublist_order.order_trans)

lemma split_from_sublist:
  "x \<in> set (split_from sep cur s) \<Longrightarrow> sublist x (cur @ s)"
proof (induction sep cur s rule: split_from.induct)
  case (1 sep cur)
  then show ?case by simp
next
  case (2 sep cur c cs)
  show ?case
  proof (cases "sep \<noteq> [] \<and> prefix sep (c # cs)")
    case True
    with 2(3) have "x = cur \<or> x \<in> set (split_from sep [] (drop (length sep) (c # cs)))"
      by simp
    then show ?thesis
    proof
      assume "x = cur" then show ?thesis by simp
    next
      assume "x \<in> set (split_from sep [] (drop (length sep) (c # cs)))"
      with 2(1) True have "sublist x ([] @ drop (length sep) (c # cs))" by blast
      then have a: "sublist x (drop (length sep) (c # cs))" by simp
      have b: "sublist (drop (length sep) (c # cs)) (c # cs)" by (rule sublist_drop)
      have c: "sublist (c # cs) (cur @ c # cs)" by (rule sublist_append_leftI)
      show ?thesis using sublist_trans [OF sublist_trans [OF a b] c] .
    qed
  next
    case False
    with 2(3) have "x \<in> set (split_from sep (cur @ [c]) cs)" by simp
    with 2(2) False have "sublist x ((cur @ [c]) @ cs)" by blast
    then show ?thesis by simp
  qed
qed

lemma rstrip_prefix: "prefix (rstrip data c) data"
  using suffix_dropWhile [of "\<lambda>x. x = c" "rev data"]
  by (simp add: rstrip_def suffix_to_prefix)

lemma strip_while_prefix: "prefix (strip_while c data) data"
proof (induction c data rule: strip_while.induct)
  case (1 c data)
  show ?case
  proof (cases "endswith data [c]")
    case True
    with 1 have "prefix (strip_while c (rstrip data c)) (rstrip data c)" by simp
    then have "prefix (strip_while c (rstrip data c)) data"
      using rstrip_prefix prefix_order.order_trans by blast
    with True show ?thesis by (simp add: strip_while.simps [of c data])
  next
    case False
    then show ?thesis by (simp add: strip_while.simps [of c data])
  qed
qed

lemma strip_trailing_crnl_prefix: "prefix (strip_trailing_crnl data) data"
  unfolding strip_trailing_crnl_def
  using strip_while_prefix prefix_order.order_trans by blast

lemma split_file_rows_sublist:
  assumes "row \<in> set (iter_rows (split_file data))"
  shows "sublist row data"
proof -
  define s where "s = strip_trailing_crnl data"
  have p: "sublist s data"
    unfolding s_def using strip_trailing_crnl_prefix by blast
  have "sublist row s"
  proof (cases "py_in [CR, LF] s \<or> py_in [LF] s \<or> py_in [CR] s")
    case True
    then obtain sep where "row \<in> set (split_from sep [] s)"
      using assms unfolding split_file_def s_def [symmetric] Let_def str_split_def
      by (auto split: if_splits)
    then show ?thesis using split_from_sublist [of row sep "[]" s] by simp
  next
    case False
    then have "row \<in> set (map (\<lambda>c. [c]) s)"
      using assms unfolding split_file_def s_def [symmetric] Let_def by simp
    then obtain c where "c \<in> set s" "row = [c]" by auto
    then obtain ps ss where "s = ps @ c # ss" by (meson split_list)
    with \<open>row = [c]\<close> show ?thesis
      unfolding sublist_def by auto
  qed
  from this p show ?thesis by (rule sublist_trans)
qed

lemma split_row_loop_append:
  "split_row_loop (r @ s) delim quotechar cells cur iq =
     (case split_row_loop r delim quotechar cells cur iq of
        (cells', cur', iq') \<Rightarrow> split_row_loop s delim quotechar cells' cur' iq')"
  by (induction r delim quotechar cells cur iq rule: split_row_loop.induct) auto

lemma py_join_snoc:
  "py_join sep (xs @ [x]) = (if xs = [] then x else py_join sep xs @ sep @ x)"
  by (induction sep xs rule: py_join.induct) auto

lemma py_join_snoc2:
  "py_join sep (xs @ [x, y]) = py_join sep (xs @ [x]) @ sep @ y"
  using py_join_snoc [of sep "xs @ [x]" y] by simp

lemma split_row_loop_join:
  "split_row_loop row delim quotechar cells cur iq = (cells', cur', iq') \<Longrightarrow>
   py_join delim (cells' @ [cur']) = py_join delim (cells @ [cur]) @ row"
proof (induction row delim quotechar cells cur iq rule: split_row_loop.induct)
  case (1 delim quotechar cells current_cell in_quotes)
  then show ?case by simp
next
  case (2 c row delim quotechar cells current_cell in_quotes)
  show ?case
  proof (cases "[c] = delim \<and> \<not> in_quotes")
    case True
    with 2(1,4) have "py_join delim (cells' @ [cur']) = py_join delim ((cells @ [current_cell]) @ [[]]) @ row"
      by simp
    also have "py_join delim ((cells @ [current_cell]) @ [[]]) = py_join delim (cells @ [current_cell]) @ delim"
      using py_join_snoc2 [of delim cells current_cell "[]"] by simp
    finally show ?thesis using True by auto
  next
    case False
    with 2(2,3,4) have "py_join delim (cells' @ [cur']) = py_join delim (cells @ [current_cell @ [c]]) @ row"
      by (auto split: if_splits)
    also have "py_join delim (cells @ [current_cell @ [c]]) = py_join delim (cells @ [current_cell]) @ [c]"
      by (simp add: py_join_snoc)
    finally show ?thesis by simp
  qed
qed

lemma py_in_empty: "py_in [] s"
  by (cases s) simp_all

lemma split_from_not_Nil: "split_from sep cur s \<noteq> []"
  by (induction sep cur s rule: split_from.induct) auto

lemma naive_split_snoc: "naive_split d (r @ [d]) = naive_split d r @ [[]]"
  by (induction r) (simp_all add: naive_split_not_Nil)

lemma split_row_loop_no_quotes:
  "split_row_loop row [d] [] cells cur False =
     (cells @ butlast (split_from [d] cur row), last (split_from [d] cur row), False)"
proof (induction row arbitrary: cells cur)
  case Nil
  show ?case by simp
next
  case (Cons c row)
  show ?case
  proof (cases "c = d")
    case True
    then show ?thesis
      using Cons [of "cells @ [cur]" "[]"] split_from_not_Nil [of "[d]" "[]" row] by simp
  next
    case False
    then show ?thesis using Cons [of cells "cur @ [c]"] by simp
  qed
qed

lemma split_row_empty_quotechar:
  "split_row row [d] (Some []) =
     Inr (if last (naive_split d row) = [] then butlast (naive_split d row)
          else naive_split d row)"
proof -
  have "split_from [d] [] row = naive_split d row"
    using str_split_naive [of row d] by (simp add: str_split_def)
  then show ?thesis
    using naive_split_not_Nil [of d row]
    by (simp add: py_in_empty split_row_loop_no_quotes)
qed

text \<open>
  C4. \<open>split_file\<close> strips the trailing line feeds and then the trailing carriage returns
  before it splits, so that trailing blank lines give no empty last row. The second loop
  leaves a line feed at the end of a file whose lines end in CR LF and whose last line is
  blank, and the split then returns an empty last row.
\<close>

theorem split_file_crlf_blank_line:
  "split_file (''a'' @ [CR, LF] @ ''b'' @ [CR, LF] @ [CR, LF]) = RowList [''a'', ''b'', []]"
  by code_simp

text \<open>
  C5, as stated: whatever the quote character, a row that ends on the delimiter gives no
  trailing empty cell. It fails when the quote character does not occur in the row (or is
  \<open>None\<close>): the row is then split by \<open>str.split\<close>, which keeps the empty last cell.
\<close>

theorem split_row_trailing_cell_counterexample:
  "endswith ''a,'' '','' \<and> split_row ''a,'' '','' (Some [DQ]) = Inr [''a'', []]
   \<and> split_row ''a,'' '','' None = Inr [''a'', []]"
  by code_simp

text \<open>
  C5, amended: when the quote character occurs in the row (as the empty string always
  does), the row is scanned character by character. If its last character is the delimiter
  and is read outside quotes, the accumulator before it is closed as the last cell, kept
  even when it is empty, and the empty accumulator that is left is dropped: no cell follows
  the last delimiter. In every other case the accumulator holds the last character, is not
  empty, and is flushed as the final cell. The cells and the accumulator before the last
  character, joined by the delimiter, are the row before its last character. When the quote
  character is \<open>None\<close> or does not occur in the row, a row that ends on the delimiter is split
  by \<open>str.split\<close> and keeps an empty last cell after the cells of the row before that
  delimiter.
\<close>

theorem split_row_trailing_delimiter:
  "(py_in quotechar (r @ [c])
      \<and> split_row_loop r [d] quotechar [] [] False = (cells, current_cell, in_quotes)
    \<longrightarrow> split_row (r @ [c]) [d] (Some quotechar) =
          Inr (if c = d \<and> \<not> in_quotes then cells @ [current_cell]
               else cells @ [current_cell @ [c]])
        \<and> py_join [d] (cells @ [current_cell]) = r)
   \<and> (q = None \<or> (\<exists>s. q = Some s \<and> \<not> py_in s (row @ [d]))
    \<longrightarrow> split_row (row @ [d]) [d] q = Inr (naive_split d row @ [[]]))"
proof (intro conjI impI)
  assume a: "py_in quotechar (r @ [c])
      \<and> split_row_loop r [d] quotechar [] [] False = (cells, current_cell, in_quotes)"
  then have l: "split_row_loop r [d] quotechar [] [] False = (cells, current_cell, in_quotes)"
    by simp
  have "split_row_loop (r @ [c]) [d] quotechar [] [] False =
          (if c = d \<and> \<not> in_quotes then (cells @ [current_cell], [], in_quotes)
           else if [c] = quotechar then (cells, current_cell @ [c], \<not> in_quotes)
           else (cells, current_cell @ [c], in_quotes))"
    using l by (simp add: split_row_loop_append)
  with a show "split_row (r @ [c]) [d] (Some quotechar) =
          Inr (if c = d \<and> \<not> in_quotes then cells @ [current_cell]
               else cells @ [current_cell @ [c]])"
    by simp
  show "py_join [d] (cells @ [current_cell]) = r"
    using split_row_loop_join [OF l] by simp
next
  assume a: "q = None \<or> (\<exists>s. q = Some s \<and> \<not> py_in s (row @ [d]))"
  then have "split_row (row @ [d]) [d] q = py_split (row @ [d]) [d]" by auto
  then show "split_row (row @ [d]) [d] q = Inr (naive_split d row @ [[]])"
    by (simp add: py_split_def str_split_naive naive_split_snoc)
qed

theorem split_row_trailing_delimiter_witness:
  "py_in [DQ] ([DQ] @ ''a'' @ '','')
   \<and> split_row_loop ([DQ] @ ''a'') '','' [DQ] [] [] False = ([], [DQ] @ ''a'', True)
   \<and> split_row ([DQ] @ ''a'' @ '','') '','' (Some [DQ]) = Inr [[DQ] @ ''a,'']
   \<and> py_in [DQ] ([DQ] @ ''a'' @ [DQ] @ '',,'')
   \<and> split_row_loop ([DQ] @ ''a'' @ [DQ] @ '','') '','' [DQ] [] [] False
       = ([[DQ] @ ''a'' @ [DQ]], [], False)
   \<and> split_row ([DQ] @ ''a'' @ [DQ] @ '',,'') '','' (Some [DQ]) = Inr [[DQ] @ ''a'' @ [DQ], []]
   \<and> split_row ''b,'' '','' None = Inr [''b'', []]"
proof -
  have h1: "py_in [DQ] (([DQ] @ ''a'') @ [CHR '',''])" by simp
  have h2: "split_row_loop ([DQ] @ ''a'') [CHR '',''] [DQ] [] [] False = ([], [DQ] @ ''a'', True)"
    by simp
  have h3: "py_in [DQ] (([DQ] @ ''a'' @ [DQ] @ '','') @ [CHR '',''])" by simp
  have h4: "split_row_loop ([DQ] @ ''a'' @ [DQ] @ '','') [CHR '',''] [DQ] [] [] False
       = ([[DQ] @ ''a'' @ [DQ]], [], False)"
    by simp
  have h5: "naive_split (CHR '','') ''b'' = [''b'']" by simp
  from split_row_trailing_delimiter [of "[DQ]" "[DQ] @ ''a''" "CHR '',''" "CHR '',''"
         "[]" "[DQ] @ ''a''" True None "''b''"]
       split_row_trailing_delimiter [of "[DQ]" "[DQ] @ ''a'' @ [DQ] @ '',''" "CHR '',''" "CHR '',''"
         "[[DQ] @ ''a'' @ [DQ]]" "[]" False None "''b''"]
       h1 h2 h3 h4 h5
  show ?thesis by simp
qed

text \<open>
  C6, as stated: when the quote character is absent or does not occur in the content,
  \<open>split_row\<close> on a row of the content is the naive split. The absent quote character of
  the catalogue is the empty string, which \<open>in\<close> finds in every row, so that the row is
  scanned; the scan drops the empty cell after a last delimiter, which the naive split
  keeps.
\<close>

theorem split_row_empty_quotechar_counterexample:
  "''a,b,'' \<in> set (iter_rows (split_file (''a,b,'' @ [LF] @ ''c,,d'')))
   \<and> split_row ''a,b,'' '','' (Some []) = Inr [''a'', ''b'']
   \<and> naive_split (CHR '','') ''a,b,'' = [''a'', ''b'', []]"
  by code_simp

text \<open>
  C6, amended: when the quote character is \<open>None\<close> or a string that does not occur in the
  content (the empty string occurs in every content), \<open>split_row\<close> on any row of the content
  is \<open>row.split(delim)\<close>, and for a delimiter of one character this is the naive split of
  the specification. For the empty quote character, \<open>split_row\<close> on any row is the naive
  split without its last cell when that cell is empty.
\<close>

theorem split_row_naive:
  "(row \<in> set (iter_rows (split_file data))
      \<and> (quotechar = None \<or> (\<exists>q. quotechar = Some q \<and> \<not> py_in q data))
    \<longrightarrow> split_row row delim quotechar = py_split row delim
        \<and> split_row row [d] quotechar = Inr (naive_split d row))
   \<and> split_row r [d] (Some []) =
       Inr (if last (naive_split d r) = [] then butlast (naive_split d r)
            else naive_split d r)"
proof (intro conjI impI)
  assume a: "row \<in> set (iter_rows (split_file data))
      \<and> (quotechar = None \<or> (\<exists>q. quotechar = Some q \<and> \<not> py_in q data))"
  have p: "split_row row dl quotechar = py_split row dl" for dl
  proof (cases quotechar)
    case None
    then show ?thesis by simp
  next
    case (Some q)
    with a have "\<not> sublist q data" by (simp add: py_in_sublist)
    moreover from a have "sublist row data" using split_file_rows_sublist by blast
    ultimately have "\<not> sublist q row"
      using sublist_trans by blast
    with Some show ?thesis by (simp add: py_in_sublist)
  qed
  show "split_row row delim quotechar = py_split row delim" by (rule p)
  show "split_row row [d] quotechar = Inr (naive_split d row)"
    by (simp add: p py_split_def str_split_naive)
next
  show "split_row r [d] (Some []) =
       Inr (if last (naive_split d r) = [] then butlast (naive_split d r)
            else naive_split d r)"
    by (rule split_row_empty_quotechar)
qed

theorem split_row_naive_witness:
  "''a,b,'' \<in> set (iter_rows (split_file (''a,b,'' @ [LF] @ ''c,,d'')))
   \<and> \<not> py_in '';'' (''a,b,'' @ [LF] @ ''c,,d'')
   \<and> split_row ''a,b,'' '','' (Some '';'') = Inr [''a'', ''b'', []]
   \<and> naive_split (CHR '','') ''a,b,'' = [''a'', ''b'', []]
   \<and> split_row ''c,,d'' '','' (Some []) = Inr [''c'', [], ''d'']
   \<and> naive_split (CHR '','') ''c,,d'' = [''c'', [], ''d'']"
proof -
  have h1: "''a,b,'' \<in> set (iter_rows (split_file (''a,b,'' @ [LF] @ ''c,,d'')))"
    by code_simp
  have h2: "\<not> py_in '';'' (''a,b,'' @ [LF] @ ''c,,d'')" by simp
  have h3: "naive_split (CHR '','') ''a,b,'' = [''a'', ''b'', []]" by simp
  have h4: "naive_split (CHR '','') ''c,,d'' = [''c'', [], ''d'']" by simp
  from split_row_naive [of "''a,b,''" "''a,b,'' @ [LF] @ ''c,,d''" "Some '';''" "'',''"
         "CHR '',''" "''c,,d''"] h1 h2 h3 h4
  show ?thesis by simp
qed

section \<open>Properties of the escape-character pre-check\<close>

lemma escape_scan_iff:
  "escape_scan esc pairs encoding delim quotechar =
     (\<exists>(u, v) \<in> set pairs. ([v] = delim \<or> [v] = quotechar) \<and> esc u encoding)"
  by (induction pairs) auto

lemma pairwise_list_zip: "pairwise_list xs = zip xs (tl xs)"
  by (induction xs rule: pairwise_list.induct) auto

lemma pairwise_list_set:
  "set (pairwise_list xs) = {(xs ! i, xs ! Suc i) | i. Suc i < length xs}"
proof -
  have "set (zip xs (tl xs)) = {(xs ! i, tl xs ! i) | i. i < min (length xs) (length (tl xs))}"
    by (rule set_zip)
  also have "\<dots> = {(xs ! i, xs ! Suc i) | i. Suc i < length xs}"
    by (auto simp: nth_tl)
  finally show ?thesis by (simp add: pairwise_list_zip)
qed

lemma maybe_has_escapechar_pairs:
  "maybe_has_escapechar esc data encoding delim quotechar =
     ((py_in delim data \<or> py_in quotechar data)
      \<and> (\<exists>i. Suc i < length data
             \<and> ([data ! Suc i] = delim \<or> [data ! Suc i] = quotechar)
             \<and> esc (data ! i) encoding))"
  unfolding maybe_has_escapechar_def escape_scan_iff pairwise_list_set
  by auto

section \<open>Properties of the calls of the testers\<close>

lemma stateless_ret [stateless_intros]: "stateless (ret x)"
  by (simp add: stateless_def ret_def)

lemma stateless_pure_call [stateless_intros]: "stateless (pure_call r)"
  by (simp add: stateless_def pure_call_def)

lemma stateless_set_ID [stateless_intros]: "stateless (set_ID k)"
  by (simp add: stateless_def set_ID_def)

lemma stateless_bind [stateless_intros]:
  assumes "stateless m" and "\<And>x. stateless (f x)"
  shows "stateless (call_bind m f)"
proof -
  have "fst (call_bind m f ids) = fst (call_bind m f ids')" for ids ids'
  proof -
    have eq: "fst (m ids) = fst (m ids')" using assms(1) by (simp add: stateless_def)
    show ?thesis
    proof (cases "fst (m ids)")
      case (Inl e)
      with eq show ?thesis
        by (cases "m ids"; cases "m ids'") (simp add: call_bind_def)
    next
      case (Inr x)
      with eq assms(2) [of x] show ?thesis
        by (cases "m ids"; cases "m ids'") (simp add: call_bind_def stateless_def)
    qed
  qed
  then show ?thesis by (simp add: stateless_def)
qed

lemma stateless_if [stateless_intros]:
  "(c \<Longrightarrow> stateless a) \<Longrightarrow> (\<not> c \<Longrightarrow> stateless b) \<Longrightarrow> stateless (if c then a else b)"
  by simp

lemma stateless_loop [stateless_intros]:
  "(\<And>v. stateless (f v)) \<Longrightarrow> (\<And>x. stateless (g x))
   \<Longrightarrow> stateless (case l of Return v \<Rightarrow> f v | Continue x \<Rightarrow> g x)"
  by (cases l) simp_all

lemma stateless_wrapper [stateless_intros]:
  "stateless (form_func data encoding delim quotechar)
   \<Longrightarrow> stateless (form_escape_wrapper esc form_func data encoding delim quotechar)"
  by (simp add: form_escape_wrapper_def stateless_ret)

lemma grows_ret [grows_intros]: "grows (ret x)"
  by (simp add: grows_def ret_def)

lemma grows_pure_call [grows_intros]: "grows (pure_call r)"
  by (simp add: grows_def pure_call_def)

lemma grows_set_ID [grows_intros]: "grows (set_ID k)"
  by (auto simp: grows_def set_ID_def)

lemma grows_bind [grows_intros]:
  assumes "grows m" and "\<And>x. grows (f x)"
  shows "grows (call_bind m f)"
proof -
  have "ids \<subseteq> snd (call_bind m f ids)" for ids
  proof (cases "m ids")
    case (Pair r ids1)
    have "ids \<subseteq> snd (m ids)" using assms(1) by (simp add: grows_def)
    with Pair have a: "ids \<subseteq> ids1" by simp
    show ?thesis
    proof (cases r)
      case (Inl e)
      with Pair a show ?thesis by (simp add: call_bind_def)
    next
      case (Inr x)
      from assms(2) [of x] have "ids1 \<subseteq> snd (f x ids1)" by (simp add: grows_def)
      with Pair Inr a show ?thesis by (auto simp: call_bind_def)
    qed
  qed
  then show ?thesis by (simp add: grows_def)
qed

lemma grows_if [grows_intros]:
  "(c \<Longrightarrow> grows a) \<Longrightarrow> (\<not> c \<Longrightarrow> grows b) \<Longrightarrow> grows (if c then a else b)"
  by simp

lemma grows_loop [grows_intros]:
  "(\<And>v. grows (f v)) \<Longrightarrow> (\<And>x. grows (g x))
   \<Longrightarrow> grows (case l of Return v \<Rightarrow> f v | Continue x \<Rightarrow> g x)"
  by (cases l) simp_all

lemma grows_wrapper [grows_intros]:
  "grows (form_func data encoding delim quotechar)
   \<Longrightarrow> grows (form_escape_wrapper esc form_func data encoding delim quotechar)"
  by (simp add: form_escape_wrapper_def grows_ret)

lemma within_ret [within_intros]: "within S (ret x)"
  by (simp add: within_def ret_def)

lemma within_pure_call [within_intros]: "within S (pure_call r)"
  by (simp add: within_def pure_call_def)

lemma within_set_ID [within_intros]: "k \<in> S \<Longrightarrow> within S (set_ID k)"
  by (auto simp: within_def set_ID_def)

lemma within_bind [within_intros]:
  assumes "within S m" and "\<And>x. within S (f x)"
  shows "within S (call_bind m f)"
proof -
  have "snd (call_bind m f ids) \<subseteq> ids \<union> S" for ids
  proof (cases "m ids")
    case (Pair r ids1)
    have "snd (m ids) \<subseteq> ids \<union> S" using assms(1) by (simp add: within_def)
    with Pair have a: "ids1 \<subseteq> ids \<union> S" by simp
    show ?thesis
    proof (cases r)
      case (Inl e)
      with Pair a show ?thesis by (simp add: call_bind_def)
    next
      case (Inr x)
      from assms(2) [of x] have "snd (f x ids1) \<subseteq> ids1 \<union> S" by (simp add: within_def)
      with Pair Inr a show ?thesis by (auto simp: call_bind_def)
    qed
  qed
  then show ?thesis by (simp add: within_def)
qed

lemma within_if [within_intros]:
  "(c \<Longrightarrow> within S a) \<Longrightarrow> (\<not> c \<Longrightarrow> within S b) \<Longrightarrow> within S (if c then a else b)"
  by simp

lemma within_loop [within_intros]:
  "(\<And>v. within S (f v)) \<Longrightarrow> (\<And>x. within S (g x))
   \<Longrightarrow> within S (case l of Return v \<Rightarrow> f v | Continue x \<Rightarrow> g x)"
  by (cases l) simp_all

lemma within_wrapper [within_intros]:
  "within S (form_func data encoding delim quotechar)
   \<Longrightarrow> within S (form_escape_wrapper esc form_func data encoding delim quotechar)"
  by (simp add: form_escape_wrapper_def within_ret)

lemma within_mono: "within S c \<Longrightarrow> S \<subseteq> T \<Longrightarrow> within T c"
  by (auto simp: within_def)

lemma no_raise_ret [no_raise_intros]: "no_raise (ret x)"
  by (simp add: no_raise_def ret_def)

lemma no_raise_pure_call [no_raise_intros]: "\<not> isl r \<Longrightarrow> no_raise (pure_call r)"
  by (simp add: no_raise_def pure_call_def)

lemma no_raise_set_ID [no_raise_intros]: "no_raise (set_ID k)"
  by (simp add: no_raise_def set_ID_def)

lemma no_raise_bind [no_raise_intros]:
  assumes "no_raise m" and "\<And>x. no_raise (f x)"
  shows "no_raise (call_bind m f)"
proof -
  have "\<not> isl (fst (call_bind m f ids))" for ids
  proof (cases "m ids")
    case (Pair r ids1)
    have "\<not> isl (fst (m ids))" using assms(1) by (simp add: no_raise_def)
    with Pair have "\<not> isl r" by simp
    then obtain x where "r = Inr x" by (cases r) auto
    with Pair assms(2) [of x] show ?thesis by (simp add: call_bind_def no_raise_def)
  qed
  then show ?thesis by (simp add: no_raise_def)
qed

lemma no_raise_if [no_raise_intros]:
  "(c \<Longrightarrow> no_raise a) \<Longrightarrow> (\<not> c \<Longrightarrow> no_raise b) \<Longrightarrow> no_raise (if c then a else b)"
  by simp

lemma no_raise_loop [no_raise_intros]:
  "(\<And>v. no_raise (f v)) \<Longrightarrow> (\<And>x. no_raise (g x))
   \<Longrightarrow> no_raise (case l of Return v \<Rightarrow> f v | Continue x \<Rightarrow> g x)"
  by (cases l) simp_all

lemma no_raise_wrapper [no_raise_intros]:
  "no_raise (form_func data encoding delim quotechar)
   \<Longrightarrow> no_raise (form_escape_wrapper esc form_func data encoding delim quotechar)"
  by (simp add: form_escape_wrapper_def no_raise_ret)

lemmas tester_defs =
  is_form_1_def is_form_1_func_def is_form_2_def is_form_2_func_def
  is_form_4_def is_form_4_func_def is_form_5_def is_form_5_func_def
  is_form_6_def is_form_6_func_def is_form_7_def is_form_7_func_def
  is_form_8_def is_form_8_func_def is_form_9_def is_form_9_func_def
  is_form_10_def is_form_10_func_def is_form_11_def is_form_11_func_def
  is_form_12_def is_form_12_func_def is_form_13_def is_form_13_func_def
  is_form_14_def is_form_14_func_def is_form_15_def is_form_15_func_def
  is_form_17_def is_form_17_func_def is_form_18_def is_form_18_func_def
  is_form_19_def is_form_19_func_def

lemma stateless_testers:
  "stateless (is_form_1 esc data encoding delim quotechar)"
  "stateless (is_form_2 esc data encoding delim quotechar)"
  "stateless (is_form_4 esc data encoding delim quotechar)"
  "stateless (is_form_5 esc data encoding delim quotechar)"
  "stateless (is_form_6 esc data encoding delim quotechar)"
  "stateless (is_form_7 esc data encoding delim quotechar)"
  "stateless (is_form_8 esc data encoding delim quotechar)"
  "stateless (is_form_9 esc data encoding delim quotechar)"
  "stateless (is_form_10 esc data encoding delim quotechar)"
  "stateless (is_form_11 esc data encoding delim quotechar)"
  "stateless (is_form_12 esc data encoding delim quotechar)"
  "stateless (is_form_13 esc data encoding delim quotechar)"
  "stateless (is_form_14 esc data encoding delim quotechar)"
  "stateless (is_form_15 esc data encoding delim quotechar)"
  "stateless (is_form_17 esc data encoding delim quotechar)"
  "stateless (is_form_18 esc data encoding delim quotechar)"
  "stateless (is_form_19 esc data encoding delim quotechar)"
  unfolding tester_defs Let_def by (intro stateless_intros)+

lemma grows_testers:
  "grows (is_form_1 esc data encoding delim quotechar)"
  "grows (is_form_2 esc data encoding delim quotechar)"
  "grows (is_form_4 esc data encoding delim quotechar)"
  "grows (is_form_5 esc data encoding delim quotechar)"
  "grows (is_form_6 esc data encoding delim quotechar)"
  "grows (is_form_7 esc data encoding delim quotechar)"
  "grows (is_form_8 esc data encoding delim quotechar)"
  "grows (is_form_9 esc data encoding delim quotechar)"
  "grows (is_form_10 esc data encoding delim quotechar)"
  "grows (is_form_11 esc data encoding delim quotechar)"
  "grows (is_form_12 esc data encoding delim quotechar)"
  "grows (is_form_13 esc data encoding delim quotechar)"
  "grows (is_form_14 esc data encoding delim quotechar)"
  "grows (is_form_15 esc data encoding delim quotechar)"
  "grows (is_form_17 esc data encoding delim quotechar)"
  "grows (is_form_18 esc data encoding delim quotechar)"
  "grows (is_form_19 esc data encoding delim quotechar)"
  unfolding tester_defs Let_def by (intro grows_intros)+

lemma split_row_ok: "delim \<noteq> [] \<Longrightarrow> \<not> isl (split_row row delim q)"
  by (cases q) (auto simp: py_split_def split: prod.splits)

lemma multiple_cell_per_row_loop_ok:
  "delim \<noteq> [] \<Longrightarrow> \<not> isl (multiple_cell_per_row_loop rows delim q)"
proof (induction rows)
  case Nil
  then show ?case by simp
next
  case (Cons row rows)
  then show ?case
    using split_row_ok [of delim row q] by (cases "split_row row delim q") auto
qed

lemma even_rows_loop_ok:
  "delim \<noteq> [] \<Longrightarrow> \<not> isl (even_rows_loop rows delim q acc)"
proof (induction rows arbitrary: acc)
  case Nil
  then show ?case by simp
next
  case (Cons row rows)
  then show ?case
    using split_row_ok [of delim row q] by (cases "split_row row delim q") auto
qed

lemma row_checks_ok: "delim \<noteq> [] \<Longrightarrow> \<not> isl (row_checks rows delim q)"
  using multiple_cell_per_row_loop_ok [of delim "iter_rows rows" q]
        even_rows_loop_ok [of delim "iter_rows rows" q "{}"]
  by (auto simp: row_checks_def multiple_cell_per_row_def even_rows_def split: sum.splits)

lemma form_1_rows_ok: "delim \<noteq> [] \<Longrightarrow> \<not> isl (form_1_rows rows delim quotechar)"
proof (induction rows)
  case Nil
  then show ?case by simp
next
  case (Cons row rows)
  then show ?case
    using split_row_ok [of delim row "Some quotechar"]
    by (cases "split_row row delim (Some quotechar)") (auto split: loop.splits)
qed

lemma form_10_rows_ok: "delim \<noteq> [] \<Longrightarrow> \<not> isl (form_10_rows rows delim quotechar n)"
proof (induction rows arbitrary: n)
  case Nil
  then show ?case by simp
next
  case (Cons row rows)
  then show ?case
    using split_row_ok [of delim row "Some quotechar"]
    by (cases "split_row row delim (Some quotechar)") (auto split: loop.splits)
qed

lemma form_2_rows_ok: "delim \<noteq> [] \<Longrightarrow> \<not> isl (form_2_rows rows delim)"
proof (induction rows)
  case Nil
  then show ?case by simp
next
  case (Cons row rows)
  then show ?case
    using split_row_ok [of delim row None]
    by (cases "split_row row delim None") (auto split: loop.splits)
qed

lemma form_4_rows_ok: "delim \<noteq> [] \<Longrightarrow> \<not> isl (form_4_rows rows delim quotechar found)"
proof (induction rows arbitrary: found)
  case Nil
  then show ?case by simp
next
  case (Cons row rows)
  then show ?case
    using split_row_ok [of delim row "Some quotechar"]
    by (cases "split_row row delim (Some quotechar)") (auto split: loop.splits)
qed

lemma form_11_rows_ok: "delim \<noteq> [] \<Longrightarrow> \<not> isl (form_11_rows rows delim n)"
proof (induction rows arbitrary: n)
  case Nil
  then show ?case by simp
next
  case (Cons row rows)
  then show ?case
    using split_row_ok [of delim row None]
    by (cases "split_row row delim None") (auto split: loop.splits)
qed

lemma form_8_rows_ok: "delim \<noteq> [] \<Longrightarrow> \<not> isl (form_8_rows rows delim quotechar counts)"
proof (induction rows arbitrary: counts)
  case Nil
  then show ?case by (cases counts) simp
next
  case (Cons row rows)
  then show ?case
    using split_row_ok [of delim row "Some quotechar"]
    by (cases "split_row row delim (Some quotechar)") (auto split: loop.splits)
qed

lemma form_7_quoted_ok:
  "delim \<noteq> [] \<Longrightarrow> list_all (\<lambda>row. has_delimiter row delim) rows
   \<Longrightarrow> \<not> isl (form_7_quoted rows quotechar)"
  by (induction rows) (auto simp: has_delimiter_def)

lemma checked_rows_ok:
  "\<not> isl (row_checks rows delim q) \<Longrightarrow> (\<not> isl r)
   \<Longrightarrow> \<not> isl (case row_checks rows delim q of Inl e \<Rightarrow> Inl e
                | Inr (Return v) \<Rightarrow> Inr v | Inr (Continue u) \<Rightarrow> r)"
  by (auto split: sum.splits loop.splits)

lemma no_raise_simple:
  "no_raise (is_form_5 esc data encoding delim quotechar)"
  "no_raise (is_form_6 esc data encoding delim quotechar)"
  "no_raise (is_form_9 esc data encoding delim quotechar)"
  "no_raise (is_form_12 esc data encoding delim quotechar)"
  "no_raise (is_form_13 esc data encoding delim quotechar)"
  "no_raise (is_form_14 esc data encoding delim quotechar)"
  "no_raise (is_form_15 esc data encoding delim quotechar)"
  "no_raise (is_form_17 esc data encoding delim quotechar)"
  "no_raise (is_form_18 esc data encoding delim quotechar)"
  "no_raise (is_form_19 esc data encoding delim quotechar)"
  unfolding tester_defs Let_def by (intro no_raise_intros)+

lemma form_8_own_ok: "delim \<noteq> [] \<Longrightarrow> \<not> isl (form_8_own data delim quotechar)"
  unfolding form_8_own_def Let_def
  by (intro checked_rows_ok row_checks_ok form_8_rows_ok)

lemma no_raise_split:
  assumes "delim \<noteq> []"
  shows "no_raise (is_form_1 esc data encoding delim quotechar)"
    and "no_raise (is_form_2 esc data encoding delim quotechar)"
    and "no_raise (is_form_4 esc data encoding delim quotechar)"
    and "no_raise (is_form_8 esc data encoding delim quotechar)"
    and "no_raise (is_form_10 esc data encoding delim quotechar)"
    and "no_raise (is_form_11 esc data encoding delim quotechar)"
  unfolding is_form_1_def is_form_1_func_def is_form_2_def is_form_2_func_def
    is_form_4_def is_form_4_func_def is_form_8_def is_form_8_func_def
    is_form_10_def is_form_10_func_def is_form_11_def is_form_11_func_def Let_def
  by (intro no_raise_intros no_raise_simple checked_rows_ok row_checks_ok
        form_1_rows_ok form_2_rows_ok form_4_rows_ok form_10_rows_ok form_11_rows_ok
        form_8_own_ok assms)+

lemma no_raise_form_7:
  assumes "delim \<noteq> []"
  shows "no_raise (is_form_7 esc data encoding delim quotechar)"
  unfolding is_form_7_def is_form_7_func_def Let_def
proof (intro no_raise_intros no_raise_split(2) assms)
  assume "\<not> \<not> every_row_has_delim (split_file data) delim"
  then show "\<not> isl (form_7_quoted (iter_rows (split_file data)) quotechar)"
    using form_7_quoted_ok [OF assms] by (simp add: every_row_has_delim_def)
qed

lemma marks_body: "(\<And>u. grows (f u)) \<Longrightarrow> marks k (call_bind (set_ID k) f)"
proof -
  assume g: "\<And>u. grows (f u)"
  have "k \<in> snd (call_bind (set_ID k) f ids)" for ids
  proof -
    have "insert k ids \<subseteq> snd (f () (insert k ids))"
      using g [of "()"] by (simp add: grows_def)
    then show ?thesis by (simp add: call_bind_def set_ID_def)
  qed
  then show ?thesis by (simp add: marks_def)
qed

lemma marks_funcs:
  "marks 1 (is_form_1_func data encoding delim quotechar)"
  "marks 2 (is_form_2_func esc data encoding delim quotechar)"
  "marks 4 (is_form_4_func esc data encoding delim quotechar)"
  "marks 5 (is_form_5_func data encoding delim quotechar)"
  "marks 6 (is_form_6_func data encoding delim quotechar)"
  "marks 7 (is_form_7_func esc data encoding delim quotechar)"
  "marks 8 (is_form_8_func esc data encoding delim quotechar)"
  "marks 9 (is_form_9_func data encoding delim quotechar)"
  "marks 10 (is_form_10_func data encoding delim quotechar)"
  "marks 11 (is_form_11_func esc data encoding delim quotechar)"
  "marks 12 (is_form_12_func data encoding delim quotechar)"
  "marks 13 (is_form_13_func data encoding delim quotechar)"
  "marks 14 (is_form_14_func data encoding delim quotechar)"
  "marks 15 (is_form_15_func data encoding delim quotechar)"
  "marks 17 (is_form_17_func data encoding delim quotechar)"
  "marks 18 (is_form_18_func data encoding delim quotechar)"
  "marks 19 (is_form_19_func data encoding delim quotechar)"
  unfolding is_form_1_func_def is_form_2_func_def is_form_4_func_def is_form_5_func_def
    is_form_6_func_def is_form_7_func_def is_form_8_func_def is_form_9_func_def
    is_form_10_func_def is_form_11_func_def is_form_12_func_def is_form_13_func_def
    is_form_14_func_def is_form_15_func_def is_form_17_func_def is_form_18_func_def
    is_form_19_func_def Let_def
  by (rule marks_body, (intro grows_intros grows_testers)+)+

lemma owns_wrapper:
  assumes "marks k (form_func data encoding delim quotechar)"
  shows "owns k (form_escape_wrapper esc form_func data encoding delim quotechar)"
proof -
  have "k \<in> ids'"
    if "form_escape_wrapper esc form_func data encoding delim quotechar ids = (Inr (True, v), ids')"
    for ids v ids'
  proof (cases "maybe_has_escapechar esc data encoding delim quotechar")
    case True
    with that show ?thesis by (simp add: form_escape_wrapper_def ret_def)
  next
    case False
    with that have "form_func data encoding delim quotechar ids = (Inr (True, v), ids')"
      by (simp add: form_escape_wrapper_def)
    moreover have "k \<in> snd (form_func data encoding delim quotechar ids)"
      using assms by (simp add: marks_def)
    ultimately show ?thesis by simp
  qed
  then show ?thesis by (simp add: owns_def)
qed

lemma owns_testers:
  "owns 1 (is_form_1 esc data encoding delim quotechar)"
  "owns 2 (is_form_2 esc data encoding delim quotechar)"
  "owns 4 (is_form_4 esc data encoding delim quotechar)"
  "owns 5 (is_form_5 esc data encoding delim quotechar)"
  "owns 6 (is_form_6 esc data encoding delim quotechar)"
  "owns 7 (is_form_7 esc data encoding delim quotechar)"
  "owns 8 (is_form_8 esc data encoding delim quotechar)"
  "owns 9 (is_form_9 esc data encoding delim quotechar)"
  "owns 10 (is_form_10 esc data encoding delim quotechar)"
  "owns 11 (is_form_11 esc data encoding delim quotechar)"
  "owns 12 (is_form_12 esc data encoding delim quotechar)"
  "owns 13 (is_form_13 esc data encoding delim quotechar)"
  "owns 14 (is_form_14 esc data encoding delim quotechar)"
  "owns 15 (is_form_15 esc data encoding delim quotechar)"
  "owns 17 (is_form_17 esc data encoding delim quotechar)"
  "owns 18 (is_form_18 esc data encoding delim quotechar)"
  "owns 19 (is_form_19 esc data encoding delim quotechar)"
  unfolding is_form_1_def is_form_2_def is_form_4_def is_form_5_def is_form_6_def
    is_form_7_def is_form_8_def is_form_9_def is_form_10_def is_form_11_def is_form_12_def
    is_form_13_def is_form_14_def is_form_15_def is_form_17_def is_form_18_def is_form_19_def
  by (intro owns_wrapper marks_funcs)+

lemma fst_bind:
  assumes "stateless m" and "\<And>x. stateless (f x)"
  shows "fst (call_bind m f ids) =
           (case fst (m {}) of Inl e \<Rightarrow> Inl e | Inr x \<Rightarrow> fst (f x {}))"
proof -
  have eq: "fst (m ids) = fst (m {})" using assms(1) by (simp add: stateless_def)
  show ?thesis
  proof (cases "m ids")
    case (Pair r ids1)
    show ?thesis
    proof (cases r)
      case (Inl e)
      with Pair eq have "fst (m {}) = Inl e" by simp
      with Pair Inl show ?thesis by (simp add: call_bind_def)
    next
      case (Inr x)
      with Pair eq have "fst (m {}) = Inr x" by simp
      moreover have "fst (f x ids1) = fst (f x {})"
        using assms(2) [of x] by (simp add: stateless_def)
      ultimately show ?thesis using Pair Inr by (simp add: call_bind_def)
    qed
  qed
qed

lemma excluded_by:
  assumes "stateless (form_func data encoding delim quotechar)"
    and "no_raise (form_func data encoding delim quotechar)"
    and "stateless rest"
  shows "fst (call_bind (form_func data encoding delim quotechar)
                (\<lambda>v. if fst v then ret r else rest) ids)
         = (if matched form_func data encoding delim quotechar then Inr r else fst (rest {}))"
proof -
  have "\<not> isl (fst (form_func data encoding delim quotechar {}))"
    using assms(2) by (simp add: no_raise_def)
  then obtain status err where run: "fst (form_func data encoding delim quotechar {}) = Inr (status, err)"
    by (cases "fst (form_func data encoding delim quotechar {})") auto
  then have m: "matched form_func data encoding delim quotechar = status"
    by (simp add: matched_def)
  have "stateless (if fst v then ret r else rest)" for v :: verdict
    using assms(3) by (simp add: stateless_ret)
  from fst_bind [of "form_func data encoding delim quotechar"
         "\<lambda>v. if fst v then ret r else rest" ids, OF assms(1) this] run m
  show ?thesis
    by (simp add: ret_def)
qed

lemma within_simple:
  "13 \<in> S \<Longrightarrow> within S (is_form_13 esc data encoding delim quotechar)"
  "17 \<in> S \<Longrightarrow> within S (is_form_17 esc data encoding delim quotechar)"
  "18 \<in> S \<Longrightarrow> within S (is_form_18 esc data encoding delim quotechar)"
  unfolding is_form_13_def is_form_13_func_def is_form_17_def is_form_17_func_def
    is_form_18_def is_form_18_func_def
  by (intro within_intros; assumption)+

lemma within_form_4:
  "4 \<in> S \<Longrightarrow> 17 \<in> S \<Longrightarrow> 18 \<in> S \<Longrightarrow> within S (is_form_4 esc data encoding delim quotechar)"
  unfolding is_form_4_def is_form_4_func_def
  by (intro within_intros within_simple; assumption)

lemma within_form_8:
  "within {4, 8, 13, 17, 18} (is_form_8 esc data encoding delim quotechar)"
  unfolding is_form_8_def is_form_8_func_def
  by (intro within_intros within_simple within_form_4; simp)

text \<open>
  C7. \<open>maybe_has_escapechar\<close> is false when neither the delimiter nor the quote character
  occurs in the content; otherwise it is true exactly when some adjacent pair of characters
  has the delimiter or the quote character second and a plausible escape character first;
  and when it is true, every tester of the catalogue returns \<open>(False, "maybe_escape")\<close>
  and leaves the stored attributes as they were, so that its own body has not run.
\<close>

theorem maybe_escape_short_circuit:
  "(\<not> py_in delim data \<and> \<not> py_in quotechar data
      \<longrightarrow> \<not> maybe_has_escapechar esc data encoding delim quotechar)
   \<and> (py_in delim data \<or> py_in quotechar data \<longrightarrow>
        maybe_has_escapechar esc data encoding delim quotechar =
          (\<exists>i. Suc i < length data
             \<and> ([data ! Suc i] = delim \<or> [data ! Suc i] = quotechar)
             \<and> esc (data ! i) encoding))
   \<and> (maybe_has_escapechar esc data encoding delim quotechar \<longrightarrow>
        (\<forall>(k, form_func, options) \<in> set (forms esc DELIMS).
           form_func data encoding delim quotechar ids = (Inr (False, Some ''maybe_escape''), ids)))"
proof (intro conjI impI)
  assume "\<not> py_in delim data \<and> \<not> py_in quotechar data"
  then show "\<not> maybe_has_escapechar esc data encoding delim quotechar"
    by (simp add: maybe_has_escapechar_def)
next
  assume "py_in delim data \<or> py_in quotechar data"
  then show "maybe_has_escapechar esc data encoding delim quotechar =
          (\<exists>i. Suc i < length data
             \<and> ([data ! Suc i] = delim \<or> [data ! Suc i] = quotechar)
             \<and> esc (data ! i) encoding)"
    by (simp add: maybe_has_escapechar_pairs)
next
  assume "maybe_has_escapechar esc data encoding delim quotechar"
  then show "\<forall>(k, form_func, options) \<in> set (forms esc DELIMS).
           form_func data encoding delim quotechar ids = (Inr (False, Some ''maybe_escape''), ids)"
    by (simp add: forms_def Let_def form_escape_wrapper_def ret_def
          is_form_1_def is_form_2_def is_form_4_def is_form_5_def is_form_6_def is_form_7_def
          is_form_8_def is_form_9_def is_form_10_def is_form_11_def is_form_12_def
          is_form_13_def is_form_14_def is_form_15_def is_form_17_def is_form_18_def
          is_form_19_def)
qed

theorem maybe_escape_short_circuit_witness:
  "py_in '','' (''a'' @ [BACKSLASH] @ '',b'')
   \<and> maybe_has_escapechar backslash_only (''a'' @ [BACKSLASH] @ '',b'') ''utf-8'' '','' []
   \<and> is_form_1 backslash_only (''a'' @ [BACKSLASH] @ '',b'') ''utf-8'' '','' [] {}
       = (Inr (False, Some ''maybe_escape''), {})
   \<and> is_form_5 backslash_only (''a'' @ [BACKSLASH] @ '',b'') ''utf-8'' '','' [] {}
       = (Inr (False, Some ''maybe_escape''), {})"
proof -
  let ?X = "''a'' @ [BACKSLASH] @ '',b''"
  have h1: "py_in '','' ?X" by simp
  have h2: "maybe_has_escapechar backslash_only ?X ''utf-8'' '','' []"
    by (simp add: maybe_has_escapechar_def backslash_only_def)
  from maybe_escape_short_circuit [where delim = "'',''" and data = ?X and quotechar = "[]"
         and esc = backslash_only and encoding = "''utf-8''"
         and DELIMS = "['','', '';'', ''|'', [TAB]]" and ids = "{}"] h2
  have "\<forall>(k, form_func, options) \<in> set (forms backslash_only ['','', '';'', ''|'', [TAB]]).
           form_func ?X ''utf-8'' '','' [] {} = (Inr (False, Some ''maybe_escape''), {})"
    by blast
  then have "is_form_1 backslash_only ?X ''utf-8'' '','' [] {} = (Inr (False, Some ''maybe_escape''), {})"
    and "is_form_5 backslash_only ?X ''utf-8'' '','' [] {} = (Inr (False, Some ''maybe_escape''), {})"
    by (simp_all add: forms_def Let_def)
  with h1 h2 show ?thesis by blast
qed

text \<open>
  C8, as stated: \<open>is_form_8\<close> excludes exactly three forms, 13, 17 and 18, and makes no other
  cross-form check. It fails on a file that \<open>is_form_4\<close> matches: none of the three testers
  matches, the own checks of \<open>is_form_8\<close> would accept the file, and \<open>is_form_8\<close> rejects it
  with the reason code \<open>form_4\<close>.
\<close>

theorem form_8_fourth_exclusion_counterexample:
  "\<not> matched (is_form_13 backslash_only)
        (''a,'' @ [DQ] @ ''b,c'' @ [DQ] @ [LF] @ ''d,'' @ [DQ] @ ''e,f'' @ [DQ]) ''utf-8'' '','' [DQ]
   \<and> \<not> matched (is_form_17 backslash_only)
        (''a,'' @ [DQ] @ ''b,c'' @ [DQ] @ [LF] @ ''d,'' @ [DQ] @ ''e,f'' @ [DQ]) ''utf-8'' '','' [DQ]
   \<and> \<not> matched (is_form_18 backslash_only)
        (''a,'' @ [DQ] @ ''b,c'' @ [DQ] @ [LF] @ ''d,'' @ [DQ] @ ''e,f'' @ [DQ]) ''utf-8'' '','' [DQ]
   \<and> form_8_own (''a,'' @ [DQ] @ ''b,c'' @ [DQ] @ [LF] @ ''d,'' @ [DQ] @ ''e,f'' @ [DQ]) '','' [DQ]
       = Inr (True, None)
   \<and> fst (is_form_8 backslash_only
        (''a,'' @ [DQ] @ ''b,c'' @ [DQ] @ [LF] @ ''d,'' @ [DQ] @ ''e,f'' @ [DQ]) ''utf-8'' '','' [DQ] {})
       = Inr (False, Some ''form_4'')"
  by code_simp

text \<open>
  C8, amended: \<open>is_form_8\<close> excludes four forms, tested in the order 4, 13, 18, 17. When the
  pre-check is negative, it returns not matched with the reason code of the first of them
  that matches, and the result of its own checks when none does (an exception of
  \<open>is_form_4\<close> goes through); and the only attributes it can store are those of the
  testers 8, 4, 13, 18 and 17, so that it calls no other tester.
\<close>

theorem form_8_exclusions:
  "fst (is_form_8 esc data encoding delim quotechar ids) =
     (if maybe_has_escapechar esc data encoding delim quotechar
      then Inr (False, Some ''maybe_escape'')
      else case fst (is_form_4 esc data encoding delim quotechar {}) of
             Inl e \<Rightarrow> Inl e
           | Inr form_4 \<Rightarrow>
               if fst form_4 then Inr (False, Some ''form_4'')
               else if matched (is_form_13 esc) data encoding delim quotechar
               then Inr (False, Some ''form_13'')
               else if matched (is_form_18 esc) data encoding delim quotechar
               then Inr (False, Some ''form_18'')
               else if matched (is_form_17 esc) data encoding delim quotechar
               then Inr (False, Some ''form_17'')
               else form_8_own data delim quotechar)
   \<and> snd (is_form_8 esc data encoding delim quotechar ids) \<subseteq> ids \<union> {4, 8, 13, 17, 18}"
proof
  show "snd (is_form_8 esc data encoding delim quotechar ids) \<subseteq> ids \<union> {4, 8, 13, 17, 18}"
    using within_form_8 [of esc data encoding delim quotechar] by (simp add: within_def)
next
  let ?k17 = "\<lambda>form_17 :: verdict. if fst form_17 then ret (False, Some ''form_17'')
                 else pure_call (form_8_own data delim quotechar)"
  let ?k18 = "\<lambda>form_18 :: verdict. if fst form_18 then ret (False, Some ''form_18'')
                 else call_bind (is_form_17 esc data encoding delim quotechar) ?k17"
  let ?k13 = "\<lambda>form_13 :: verdict. if fst form_13 then ret (False, Some ''form_13'')
                 else call_bind (is_form_18 esc data encoding delim quotechar) ?k18"
  let ?k4 = "\<lambda>form_4 :: verdict. if fst form_4 then ret (False, Some ''form_4'')
                 else call_bind (is_form_13 esc data encoding delim quotechar) ?k13"
  have s17: "stateless (?k17 x)" for x by (intro stateless_intros)
  have s18: "stateless (?k18 x)" for x by (intro stateless_intros stateless_testers)
  have s13: "stateless (?k13 x)" for x by (intro stateless_intros stateless_testers)
  have s4: "stateless (?k4 x)" for x by (intro stateless_intros stateless_testers)
  have s8: "stateless (call_bind (is_form_4 esc data encoding delim quotechar) ?k4)"
    by (intro stateless_intros stateless_testers)
  have b17: "fst (call_bind (is_form_17 esc data encoding delim quotechar) ?k17 {}) =
      (if matched (is_form_17 esc) data encoding delim quotechar then Inr (False, Some ''form_17'')
       else form_8_own data delim quotechar)"
    using excluded_by [of "is_form_17 esc" data encoding delim quotechar
            "pure_call (form_8_own data delim quotechar)" "(False, Some ''form_17'')" "{}",
            OF stateless_testers(15) no_raise_simple(8) stateless_pure_call]
    by (simp add: pure_call_def)
  have r17: "stateless (call_bind (is_form_17 esc data encoding delim quotechar) ?k17)"
    by (intro stateless_intros stateless_testers)
  have b18: "fst (call_bind (is_form_18 esc data encoding delim quotechar) ?k18 {}) =
      (if matched (is_form_18 esc) data encoding delim quotechar then Inr (False, Some ''form_18'')
       else fst (call_bind (is_form_17 esc data encoding delim quotechar) ?k17 {}))"
    using excluded_by [of "is_form_18 esc" data encoding delim quotechar
            "call_bind (is_form_17 esc data encoding delim quotechar) ?k17"
            "(False, Some ''form_18'')" "{}",
            OF stateless_testers(16) no_raise_simple(9) r17]
    by simp
  have r18: "stateless (call_bind (is_form_18 esc data encoding delim quotechar) ?k18)"
    by (intro stateless_intros stateless_testers)
  have b13: "fst (call_bind (is_form_13 esc data encoding delim quotechar) ?k13 {}) =
      (if matched (is_form_13 esc) data encoding delim quotechar then Inr (False, Some ''form_13'')
       else fst (call_bind (is_form_18 esc data encoding delim quotechar) ?k18 {}))"
    using excluded_by [of "is_form_13 esc" data encoding delim quotechar
            "call_bind (is_form_18 esc data encoding delim quotechar) ?k18"
            "(False, Some ''form_13'')" "{}",
            OF stateless_testers(12) no_raise_simple(5) r18]
    by simp
  have b4: "fst (call_bind (is_form_4 esc data encoding delim quotechar) ?k4 {}) =
      (case fst (is_form_4 esc data encoding delim quotechar {}) of
         Inl e \<Rightarrow> Inl e
       | Inr form_4 \<Rightarrow> if fst form_4 then Inr (False, Some ''form_4'')
           else fst (call_bind (is_form_13 esc data encoding delim quotechar) ?k13 {}))"
    by (simp add: fst_bind [of "is_form_4 esc data encoding delim quotechar" ?k4 "{}", OF stateless_testers(3) s4] ret_def split: sum.splits)
  have b8: "fst (is_form_8_func esc data encoding delim quotechar ids) =
      fst (call_bind (is_form_4 esc data encoding delim quotechar) ?k4 {})"
    unfolding is_form_8_func_def
    by (simp add: fst_bind [of "set_ID 8" "\<lambda>_. call_bind (is_form_4 esc data encoding delim quotechar) ?k4" ids, OF stateless_set_ID s8]
          set_ID_def)
  show "fst (is_form_8 esc data encoding delim quotechar ids) =
     (if maybe_has_escapechar esc data encoding delim quotechar
      then Inr (False, Some ''maybe_escape'')
      else case fst (is_form_4 esc data encoding delim quotechar {}) of
             Inl e \<Rightarrow> Inl e
           | Inr form_4 \<Rightarrow>
               if fst form_4 then Inr (False, Some ''form_4'')
               else if matched (is_form_13 esc) data encoding delim quotechar
               then Inr (False, Some ''form_13'')
               else if matched (is_form_18 esc) data encoding delim quotechar
               then Inr (False, Some ''form_18'')
               else if matched (is_form_17 esc) data encoding delim quotechar
               then Inr (False, Some ''form_17'')
               else form_8_own data delim quotechar)"
    unfolding is_form_8_def form_escape_wrapper_def
    by (simp add: b8 b4 b13 b18 b17 ret_def split: sum.splits)
qed

theorem form_8_exclusions_witness:
  "\<not> maybe_has_escapechar backslash_only
        (''what,kind,bundleId,bundleVersion,description,time'' @ [DQ]) ''utf-8'' '','' [DQ]
   \<and> matched (is_form_13 backslash_only)
        (''what,kind,bundleId,bundleVersion,description,time'' @ [DQ]) ''utf-8'' '','' [DQ]
   \<and> fst (is_form_8 backslash_only
        (''what,kind,bundleId,bundleVersion,description,time'' @ [DQ]) ''utf-8'' '','' [DQ] {})
       = Inr (False, Some ''form_13'')
   \<and> snd (is_form_8 backslash_only
        (''what,kind,bundleId,bundleVersion,description,time'' @ [DQ]) ''utf-8'' '','' [DQ] {})
       \<subseteq> {4, 8, 13, 17, 18}"
proof -
  let ?Y = "''what,kind,bundleId,bundleVersion,description,time'' @ [DQ]"
  have h1: "\<not> maybe_has_escapechar backslash_only ?Y ''utf-8'' '','' [DQ]" by code_simp
  have h2: "fst (is_form_4 backslash_only ?Y ''utf-8'' '','' [DQ] {}) = Inr (False, Some ''no_delim'')"
    by code_simp
  have h3: "matched (is_form_13 backslash_only) ?Y ''utf-8'' '','' [DQ]" by code_simp
  from form_8_exclusions [where esc = backslash_only and data = ?Y and encoding = "''utf-8''"
         and delim = "'',''" and quotechar = "[DQ]" and ids = "{}"] h1 h2 h3
  show ?thesis by simp
qed

section \<open>Properties of the classification\<close>

lemma dict_product_pairs:
  "dict_product (ds, qs) = map (\<lambda>(d, q). [(''delim'', d), (''quotechar'', q)]) (List.product ds qs)"
  by (induction ds) (simp_all add: dict_product_def)

lemma records_append:
  "records r f (a @ b) = records r f a @ records r f b"
  by (simp add: records_def)

lemma try_options_result:
  assumes "good k form_func data encoding pairs"
  shows "(\<exists>ids'. try_options k form_func (map (\<lambda>(d, q). [(''delim'', d), (''quotechar'', q)]) pairs)
            filename data encoding record_result verbose detected (ids, log)
          = (Inr (detected @ hits k form_func data encoding pairs),
             (ids', log @ records record_result filename (hits k form_func data encoding pairs))))
       \<or> (verbose \<and> (\<exists>w'. try_options k form_func (map (\<lambda>(d, q). [(''delim'', d), (''quotechar'', q)]) pairs)
            filename data encoding record_result verbose detected (ids, log)
          = (Inl AttributeError, w')))"
  using assms
proof (induction pairs arbitrary: detected ids log)
  case Nil
  then show ?case by (simp add: hits_def records_def)
next
  case (Cons p pairs)
  obtain d q where p: "p = (d, q)" by (cases p)
  from Cons.prems p have st: "stateless (form_func data encoding d q)"
    and nr: "no_raise (form_func data encoding d q)"
    and ow: "owns k (form_func data encoding d q)"
    and rest: "good k form_func data encoding pairs"
    by (auto simp: good_def)
  obtain r ids1 where run: "form_func data encoding d q ids = (r, ids1)"
    by (cases "form_func data encoding d q ids")
  from nr run obtain status err where r: "r = Inr (status, err)"
    by (cases r) (auto simp: no_raise_def dest: spec [of _ ids])
  have "fst (form_func data encoding d q {}) = fst (form_func data encoding d q ids)"
    using st by (simp add: stateless_def)
  with run r have m: "matched form_func data encoding d q = status"
    by (simp add: matched_def)
  show ?case
  proof (cases status)
    case True
    with ow run r have "k \<in> ids1" by (auto simp: owns_def)
    then have g: "get_ID k ids1 = Inr k" by (simp add: get_ID_def)
    let ?opt = "[(''delim'', d), (''quotechar'', q), (''escapechar'', [])]"
    have h: "hits k form_func data encoding (p # pairs) = (k, ?opt) # hits k form_func data encoding pairs"
      using m True p by (simp add: hits_def)
    have step: "try_options k form_func (map (\<lambda>(d, q). [(''delim'', d), (''quotechar'', q)]) (p # pairs))
            filename data encoding record_result verbose detected (ids, log)
       = try_options k form_func (map (\<lambda>(d, q). [(''delim'', d), (''quotechar'', q)]) pairs)
            filename data encoding record_result verbose (detected @ [(k, ?opt)])
            (ids1, log @ records record_result filename [(k, ?opt)])"
      using run r True g p by (simp add: records_def record_form_def)
    have e1: "(detected @ [(k, ?opt)]) @ hits k form_func data encoding pairs
                = detected @ (k, ?opt) # hits k form_func data encoding pairs"
      by simp
    have e2: "(log @ records record_result filename [(k, ?opt)])
                @ records record_result filename (hits k form_func data encoding pairs)
              = log @ records record_result filename ((k, ?opt) # hits k form_func data encoding pairs)"
      using records_append [of record_result filename "[(k, ?opt)]" "hits k form_func data encoding pairs"]
      by simp
    from Cons.IH [OF rest, of "detected @ [(k, ?opt)]" ids1 "log @ records record_result filename [(k, ?opt)]"]
    show ?thesis
      unfolding step h e1 e2 .
  next
    case False
    have h: "hits k form_func data encoding (p # pairs) = hits k form_func data encoding pairs"
      using m False p by (simp add: hits_def)
    show ?thesis
    proof (cases "verbose \<and> k \<notin> ids1")
      case True
      then have "try_options k form_func (map (\<lambda>(d, q). [(''delim'', d), (''quotechar'', q)]) (p # pairs))
            filename data encoding record_result verbose detected (ids, log)
          = (Inl AttributeError, (ids1, log))"
        using run r False p by (simp add: get_ID_def)
      with True show ?thesis by blast
    next
      case nv: False
      then have step: "try_options k form_func (map (\<lambda>(d, q). [(''delim'', d), (''quotechar'', q)]) (p # pairs))
            filename data encoding record_result verbose detected (ids, log)
       = try_options k form_func (map (\<lambda>(d, q). [(''delim'', d), (''quotechar'', q)]) pairs)
            filename data encoding record_result verbose detected (ids1, log)"
        using run r False p by (auto simp: get_ID_def)
      from Cons.IH [OF rest, of detected ids1 log]
      show ?thesis unfolding step h .
    qed
  qed
qed

lemma try_forms_result:
  assumes "\<forall>(k, form_func, ds, qs) \<in> set fs. good k form_func data encoding (List.product ds qs)"
  shows "(\<exists>ids'. try_forms fs filename data encoding record_result verbose detected (ids, log)
          = (Inr (detected @ positive_matches fs data encoding),
             (ids', log @ records record_result filename (positive_matches fs data encoding))))
       \<or> (verbose \<and> (\<exists>w'. try_forms fs filename data encoding record_result verbose detected (ids, log)
          = (Inl AttributeError, w')))"
  using assms
proof (induction fs arbitrary: detected ids log)
  case Nil
  then show ?case by (simp add: positive_matches_def records_def)
next
  case (Cons entry fs)
  obtain k form_func ds qs where e: "entry = (k, form_func, ds, qs)" by (cases entry) auto
  from Cons.prems e have g: "good k form_func data encoding (List.product ds qs)"
    and rest: "\<forall>(k, form_func, ds, qs) \<in> set fs. good k form_func data encoding (List.product ds qs)"
    by auto
  let ?h = "hits k form_func data encoding (List.product ds qs)"
  have pm: "positive_matches (entry # fs) data encoding = ?h @ positive_matches fs data encoding"
    using e by (simp add: positive_matches_def)
  from try_options_result [OF g, of filename record_result verbose detected ids log]
  show ?case
  proof
    assume "\<exists>ids'. try_options k form_func (map (\<lambda>(d, q). [(''delim'', d), (''quotechar'', q)]) (List.product ds qs))
            filename data encoding record_result verbose detected (ids, log)
          = (Inr (detected @ ?h), (ids', log @ records record_result filename ?h))"
    then obtain ids1 where o: "try_options k form_func (dict_product (ds, qs))
            filename data encoding record_result verbose detected (ids, log)
          = (Inr (detected @ ?h), (ids1, log @ records record_result filename ?h))"
      by (auto simp: dict_product_pairs)
    have step: "try_forms (entry # fs) filename data encoding record_result verbose detected (ids, log)
       = try_forms fs filename data encoding record_result verbose (detected @ ?h)
           (ids1, log @ records record_result filename ?h)"
      using o e by simp
    have e1: "(detected @ ?h) @ positive_matches fs data encoding
                = detected @ ?h @ positive_matches fs data encoding"
      by simp
    have e2: "(log @ records record_result filename ?h)
                @ records record_result filename (positive_matches fs data encoding)
              = log @ records record_result filename (?h @ positive_matches fs data encoding)"
      by (simp add: records_append)
    from Cons.IH [OF rest, of "detected @ ?h" ids1 "log @ records record_result filename ?h"]
    show ?thesis unfolding step pm e1 e2 .
  next
    assume "verbose \<and> (\<exists>w'. try_options k form_func (map (\<lambda>(d, q). [(''delim'', d), (''quotechar'', q)]) (List.product ds qs))
            filename data encoding record_result verbose detected (ids, log)
          = (Inl AttributeError, w'))"
    then obtain w' where v: verbose and o: "try_options k form_func (dict_product (ds, qs))
            filename data encoding record_result verbose detected (ids, log)
          = (Inl AttributeError, w')"
      by (auto simp: dict_product_pairs)
    have "try_forms (entry # fs) filename data encoding record_result verbose detected (ids, log)
       = (Inl AttributeError, w')"
      using o e by simp
    with v show ?thesis by blast
  qed
qed

lemma good_if:
  assumes "\<And>d q. stateless (form_func data encoding d q)"
    and "\<And>d q. owns k (form_func data encoding d q)"
    and "\<And>d q. d \<in> set ds \<Longrightarrow> no_raise (form_func data encoding d q)"
  shows "good k form_func data encoding (List.product ds qs)"
  using assms by (auto simp: good_def)

lemma forms_good:
  assumes "[] \<notin> set DELIMS"
  shows "\<forall>(k, form_func, ds, qs) \<in> set (forms esc DELIMS).
           good k form_func data encoding (List.product ds qs)"
proof -
  have ne: "d \<noteq> []" if "d \<in> set DELIMS" for d using that assms by auto
  show ?thesis
    unfolding forms_def Let_def list_all_iff [symmetric]
    apply (simp only: list.pred_inject prod.case)
    apply (intro conjI TrueI good_if stateless_testers owns_testers no_raise_simple
             no_raise_split no_raise_form_7 ne)
    apply assumption+
    done
qed

lemma map_of_dict_set:
  "map_of (dict_set k v d) k' = (if k' = k then Some v else map_of d k')"
  by (induction d) auto

lemma escapechar_empty_append:
  "escapechar_empty (a @ b) = (escapechar_empty a \<and> escapechar_empty b)"
  by (simp add: escapechar_empty_def)

lemma try_options_escapechar:
  assumes "try_options k form_func opts filename data encoding record_result verbose detected (ids, log)
             = (r, (ids', log'))"
    and "escapechar_empty detected"
  shows "(\<forall>ms. r = Inr ms \<longrightarrow> escapechar_empty ms)
         \<and> (\<exists>new. log' = log @ new \<and> escapechar_empty new)"
  using assms
proof (induction opts arbitrary: detected ids log)
  case Nil
  then show ?case by (auto simp: escapechar_empty_def)
next
  case (Cons opt opts)
  show ?case
  proof (cases "map_of opt ''delim''")
    case None
    with Cons.prems show ?thesis by (auto simp: escapechar_empty_def)
  next
    case d: (Some delim)
    show ?thesis
    proof (cases "map_of opt ''quotechar''")
      case None
      with d Cons.prems show ?thesis by (auto simp: escapechar_empty_def)
    next
      case q: (Some quotechar)
      obtain res ids1 where run: "form_func data encoding delim quotechar ids = (res, ids1)"
        by (cases "form_func data encoding delim quotechar ids")
      show ?thesis
      proof (cases res)
        case (Inl e)
        with d q run Cons.prems show ?thesis by (auto simp: escapechar_empty_def)
      next
        case (Inr v)
        obtain status err where v: "v = (status, err)" by (cases v)
        show ?thesis
        proof (cases status)
          case True
          let ?opt = "dict_set ''escapechar'' [] opt"
          show ?thesis
          proof (cases "get_ID k ids1")
            case (Inl e)
            with d q run Inr v True Cons.prems show ?thesis
              by (auto simp: escapechar_empty_def)
          next
            case g: (Inr form_id)
            let ?new = "if record_result then [(form_id, dict_set ''filename'' filename ?opt)] else []"
            have step: "try_options k form_func opts filename data encoding record_result verbose
                          (detected @ [(form_id, ?opt)]) (ids1, log @ ?new) = (r, (ids', log'))"
              using d q run Inr v True g Cons.prems(1)
              by (cases record_result) (simp_all add: record_form_def Let_def)
            have e1: "escapechar_empty (detected @ [(form_id, ?opt)])"
              using Cons.prems(2) by (simp add: escapechar_empty_def map_of_dict_set)
            have e2: "escapechar_empty ?new"
              by (simp add: escapechar_empty_def map_of_dict_set)
            from Cons.IH [OF step e1] obtain new
              where r: "\<forall>ms. r = Inr ms \<longrightarrow> escapechar_empty ms"
                and l: "log' = (log @ ?new) @ new" and n: "escapechar_empty new"
              by blast
            from l have "log' = log @ (?new @ new)" by simp
            moreover from e2 n have "escapechar_empty (?new @ new)"
              by (simp only: escapechar_empty_append)
            ultimately show ?thesis using r by blast
          qed
        next
          case False
          show ?thesis
          proof (cases "verbose \<and> isl (get_ID k ids1)")
            case True
            then obtain e where "get_ID k ids1 = Inl e" by (cases "get_ID k ids1") auto
            with True d q run Inr v False Cons.prems show ?thesis
              by (auto simp: escapechar_empty_def)
          next
            case nv: False
            have step: "try_options k form_func opts filename data encoding record_result verbose
                          detected (ids1, log) = (r, (ids', log'))"
            proof (cases verbose)
              case True
              with nv obtain i where "get_ID k ids1 = Inr i" by (cases "get_ID k ids1") auto
              with True d q run Inr v False Cons.prems(1) show ?thesis by simp
            next
              case nverb: False
              with d q run Inr v False Cons.prems(1) show ?thesis by simp
            qed
            from Cons.IH [OF step Cons.prems(2)] show ?thesis .
          qed
        qed
      qed
    qed
  qed
qed

lemma try_forms_escapechar:
  assumes "try_forms fs filename data encoding record_result verbose detected (ids, log)
             = (r, (ids', log'))"
    and "escapechar_empty detected"
  shows "(\<forall>ms. r = Inr ms \<longrightarrow> escapechar_empty ms)
         \<and> (\<exists>new. log' = log @ new \<and> escapechar_empty new)"
  using assms
proof (induction fs arbitrary: detected ids log)
  case Nil
  then show ?case by (auto simp: escapechar_empty_def)
next
  case (Cons entry fs)
  obtain k form_func options where e: "entry = (k, form_func, options)" by (cases entry) auto
  obtain r1 ids1 log1 where o: "try_options k form_func (dict_product options) filename data encoding
             record_result verbose detected (ids, log) = (r1, (ids1, log1))"
    by (metis surj_pair)
  from try_options_escapechar [OF o Cons.prems(2)] obtain new1
    where a: "\<forall>ms. r1 = Inr ms \<longrightarrow> escapechar_empty ms"
      and l1: "log1 = log @ new1" and n1: "escapechar_empty new1"
    by blast
  show ?case
  proof (cases r1)
    case (Inl err)
    with o e Cons.prems(1) have "r = Inl err" "log' = log1" by auto
    with l1 n1 show ?thesis by auto
  next
    case (Inr ms1)
    with o e Cons.prems(1) have step: "try_forms fs filename data encoding record_result verbose ms1 (ids1, log1)
             = (r, (ids', log'))"
      by simp
    from a Inr have "escapechar_empty ms1" by simp
    from Cons.IH [OF step this] obtain new
      where r: "\<forall>ms. r = Inr ms \<longrightarrow> escapechar_empty ms"
        and l: "log' = log1 @ new" and n: "escapechar_empty new"
      by blast
    from l l1 have "log' = log @ (new1 @ new)" by simp
    moreover from n1 n have "escapechar_empty (new1 @ new)"
      by (simp only: escapechar_empty_append)
    ultimately show ?thesis using r by blast
  qed
qed

text \<open>
  C9. Every (form, parameter set) combination that the loops of \<open>detect_form\<close> append to
  the match list, and every line they record, has an empty \<open>escapechar\<close>, whatever the
  delimiter and the quote character tried; so has the parameter set of a returned form.
\<close>

theorem positive_match_escapechar:
  assumes "try_forms (forms esc DELIMS) filename data encoding record_result verbose [] (ids, log)
             = (r, (ids', log'))"
  shows "(\<forall>detected_forms. r = Inr detected_forms \<longrightarrow> escapechar_empty detected_forms)
         \<and> (\<exists>new. log' = log @ new \<and> escapechar_empty new)
         \<and> (\<forall>k opt. fst (detect_form esc DELIMS filename (Some data) encoding record_result
                           verbose (ids, log)) = Inr (FORM k, opt)
               \<longrightarrow> map_of opt ''escapechar'' = Some [])"
proof -
  have e0: "escapechar_empty []" by (simp add: escapechar_empty_def)
  from try_forms_escapechar [OF assms e0]
  have a: "\<forall>detected_forms. r = Inr detected_forms \<longrightarrow> escapechar_empty detected_forms"
    and b: "\<exists>new. log' = log @ new \<and> escapechar_empty new"
    by blast+
  have c: "map_of opt ''escapechar'' = Some []"
    if "fst (detect_form esc DELIMS filename (Some data) encoding record_result
                           verbose (ids, log)) = Inr (FORM k, opt)" for k opt
  proof (cases r)
    case (Inl e)
    with that assms show ?thesis by (simp add: detect_form_def)
  next
    case (Inr ms)
    with a have em: "escapechar_empty ms" by simp
    from that assms Inr have "length ms = 1 \<and> snd (hd ms) = opt"
      by (auto simp: detect_form_def split: if_splits)
    then obtain m where "ms = [m]" "snd m = opt" by (cases ms) auto
    with em show ?thesis by (cases m) (simp add: escapechar_empty_def)
  qed
  from a b c show ?thesis by blast
qed

theorem positive_match_escapechar_witness:
  "try_forms (forms backslash_only ['','', '';'', ''|'', [TAB]]) ''f'' (''a'' @ [LF] @ ''b'')
       ''utf-8'' True False [] ({}, [])
     = (Inr [(6, [(''delim'', []), (''quotechar'', []), (''escapechar'', [])])],
        {1, 2, 4, 5, 6, 7, 8, 9, 10, 11, 12, 13, 14, 15, 17, 18, 19},
        [(6, [(''delim'', []), (''quotechar'', []), (''escapechar'', []), (''filename'', ''f'')])])
   \<and> escapechar_empty [(6, [(''delim'', []), (''quotechar'', []), (''escapechar'', [])])]"
proof -
  have run: "try_forms (forms backslash_only ['','', '';'', ''|'', [TAB]]) ''f'' (''a'' @ [LF] @ ''b'')
       ''utf-8'' True False [] ({}, [])
     = (Inr [(6, [(''delim'', []), (''quotechar'', []), (''escapechar'', [])])],
        {1, 2, 4, 5, 6, 7, 8, 9, 10, 11, 12, 13, 14, 15, 17, 18, 19},
        [(6, [(''delim'', []), (''quotechar'', []), (''escapechar'', []), (''filename'', ''f'')])])"
    by code_simp
  from positive_match_escapechar [OF run] run show ?thesis by simp
qed

text \<open>
  When every delimiter candidate is non-empty, \<open>detect_form\<close> either returns the verdict
  that the number of positive matches over the whole catalogue determines, with the lines
  recorded for them, or raises an \<open>AttributeError\<close>, which it can only do in verbose mode.
\<close>

lemma detect_form_result:
  assumes "[] \<notin> set DELIMS"
  shows "(fst (detect_form esc DELIMS filename (Some data) encoding record_result verbose (ids, log))
            = verdict_of (positive_matches (forms esc DELIMS) data encoding)
          \<and> snd (snd (detect_form esc DELIMS filename (Some data) encoding record_result verbose (ids, log)))
            = log @ records record_result filename
                (if positive_matches (forms esc DELIMS) data encoding = [] then [(0, [])]
                 else positive_matches (forms esc DELIMS) data encoding))
         \<or> (verbose
             \<and> fst (detect_form esc DELIMS filename (Some data) encoding record_result verbose (ids, log))
                 = Inl AttributeError)"
proof -
  let ?pm = "positive_matches (forms esc DELIMS) data encoding"
  from try_forms_result [where fs = "forms esc DELIMS" and data = data and encoding = encoding
         and filename = filename and record_result = record_result and verbose = verbose
         and detected = "[]" and ids = ids and log = log, OF forms_good [OF assms]]
  consider (finished) ids' where "try_forms (forms esc DELIMS) filename data encoding record_result verbose [] (ids, log)
          = (Inr ?pm, (ids', log @ records record_result filename ?pm))"
    | (aborted) w' where "verbose" "try_forms (forms esc DELIMS) filename data encoding record_result verbose [] (ids, log)
          = (Inl AttributeError, w')"
    by auto
  then show ?thesis
  proof cases
    case finished
    show ?thesis
    proof (cases ?pm)
      case Nil
      with finished show ?thesis
        by (simp add: detect_form_def verdict_of_def records_def record_form_def)
    next
      case (Cons m ms)
      show ?thesis
      proof (cases ms)
        case Nil
        with Cons finished show ?thesis
          by (cases m) (simp add: detect_form_def verdict_of_def)
      next
        case (Cons m2 ms2)
        with \<open>?pm = m # ms\<close> finished show ?thesis
          by (cases m) (simp add: detect_form_def verdict_of_def)
      qed
    qed
  next
    case aborted
    then show ?thesis by (simp add: detect_form_def)
  qed
qed

text \<open>
  C2. The verdict of \<open>detect_form\<close> is the one that the number of positive matches over the
  whole catalogue determines: no match gives the no-form verdict, exactly one match gives
  that form and its parameters, and two or more give a \<open>ValueError\<close>. Without the messages
  it is so. In verbose mode the message about a rejected combination reads the \<open>ID\<close>
  attribute of the tester, which only the body of the tester stores; a tester that the
  escape pre-check rejects on its first call has none, and \<open>detect_form\<close> raises an
  \<open>AttributeError\<close> on the first combination it tries, both for a file without any match
  (two rows of quoted cells with a backslash before a comma) and for a file with exactly
  one match (form 14).
\<close>

theorem detect_form_verbose_attribute_error:
  "positive_matches (forms backslash_only ['','', '';'', ''|'', [TAB]])
       ([DQ] @ ''a'' @ [BACKSLASH] @ '',b'' @ [DQ] @ '','' @ [DQ] @ ''c'' @ [DQ] @ [LF]
          @ [DQ] @ ''d'' @ [DQ] @ '','' @ [DQ] @ ''e'' @ [DQ]) ''utf-8'' = []
   \<and> fst (detect_form backslash_only ['','', '';'', ''|'', [TAB]] ''f''
         (Some ([DQ] @ ''a'' @ [BACKSLASH] @ '',b'' @ [DQ] @ '','' @ [DQ] @ ''c'' @ [DQ] @ [LF]
            @ [DQ] @ ''d'' @ [DQ] @ '','' @ [DQ] @ ''e'' @ [DQ])) ''utf-8'' True False ({}, []))
       = Inr (NONE, [])
   \<and> detect_form backslash_only ['','', '';'', ''|'', [TAB]] ''f''
         (Some ([DQ] @ ''a'' @ [BACKSLASH] @ '',b'' @ [DQ] @ '','' @ [DQ] @ ''c'' @ [DQ] @ [LF]
            @ [DQ] @ ''d'' @ [DQ] @ '','' @ [DQ] @ ''e'' @ [DQ])) ''utf-8'' True True ({}, [])
       = (Inl AttributeError, {}, [])
   \<and> positive_matches (forms backslash_only ['','', '';'', ''|'', [TAB]])
       (''Format is tab separated'' @ [BACKSLASH] @ '',x'') ''utf-8''
       = [(14, [(''delim'', [TAB]), (''quotechar'', []), (''escapechar'', [])])]
   \<and> fst (detect_form backslash_only ['','', '';'', ''|'', [TAB]] ''f''
         (Some (''Format is tab separated'' @ [BACKSLASH] @ '',x'')) ''utf-8'' True False ({}, []))
       = Inr (FORM 14, [(''delim'', [TAB]), (''quotechar'', []), (''escapechar'', [])])
   \<and> detect_form backslash_only ['','', '';'', ''|'', [TAB]] ''f''
         (Some (''Format is tab separated'' @ [BACKSLASH] @ '',x'')) ''utf-8'' True True ({}, [])
       = (Inl AttributeError, {}, [])"
proof -
  let ?D = "['','', '';'', ''|'', [TAB]]"
  let ?X = "[DQ] @ ''a'' @ [BACKSLASH] @ '',b'' @ [DQ] @ '','' @ [DQ] @ ''c'' @ [DQ] @ [LF]
          @ [DQ] @ ''d'' @ [DQ] @ '','' @ [DQ] @ ''e'' @ [DQ]"
  let ?Y = "''Format is tab separated'' @ [BACKSLASH] @ '',x''"
  have d: "[] \<notin> set ?D" by simp
  have pmX: "positive_matches (forms backslash_only ?D) ?X ''utf-8'' = []"
    by code_simp
  have pmY: "positive_matches (forms backslash_only ?D) ?Y ''utf-8''
       = [(14, [(''delim'', [TAB]), (''quotechar'', []), (''escapechar'', [])])]"
    by code_simp
  have qX: "fst (detect_form backslash_only ?D ''f'' (Some ?X) ''utf-8'' True False ({}, []))
       = Inr (NONE, [])"
    using detect_form_result [where esc = backslash_only and DELIMS = ?D and filename = "''f''"
         and data = ?X and encoding = "''utf-8''" and record_result = True and verbose = False
         and ids = "{}" and log = "[]", OF d]
    unfolding pmX by (simp add: verdict_of_def)
  have qY: "fst (detect_form backslash_only ?D ''f'' (Some ?Y) ''utf-8'' True False ({}, []))
       = Inr (FORM 14, [(''delim'', [TAB]), (''quotechar'', []), (''escapechar'', [])])"
    using detect_form_result [where esc = backslash_only and DELIMS = ?D and filename = "''f''"
         and data = ?Y and encoding = "''utf-8''" and record_result = True and verbose = False
         and ids = "{}" and log = "[]", OF d]
    unfolding pmY by (simp add: verdict_of_def)
  have vX: "detect_form backslash_only ?D ''f'' (Some ?X) ''utf-8'' True True ({}, [])
       = (Inl AttributeError, {}, [])"
    by code_simp
  have vY: "detect_form backslash_only ?D ''f'' (Some ?Y) ''utf-8'' True True ({}, [])
       = (Inl AttributeError, {}, [])"
    by code_simp
  from pmX qX vX pmY qY vY show ?thesis by (intro conjI)
qed

text \<open>
  C1. Over the whole catalogue and its parameter sets, at most one combination matches a
  given file. The testers 2 and 12 do not exclude each other: a comma-separated file with
  two rows of three unquoted cells, whose first row has \<open>male\<close> in its second cell and a
  mail address in its third, is matched by both with the delimiter \<open>,\<close> and the empty quote
  character, and \<open>detect_form\<close> raises its \<open>ValueError\<close>. The plausible escape character is
  the backslash here, and the delimiters are tried in the order comma, semicolon, bar, tab.
\<close>

theorem two_forms_match_one_file:
  "positive_matches (forms backslash_only ['','', '';'', ''|'', [TAB]])
       (''x,male,a@b.com'' @ [LF] @ ''y,z,w'') ''utf-8''
     = [(2, [(''delim'', '',''), (''quotechar'', []), (''escapechar'', [])]),
        (12, [(''delim'', '',''), (''quotechar'', []), (''escapechar'', [])])]
   \<and> fst (is_form_2 backslash_only (''x,male,a@b.com'' @ [LF] @ ''y,z,w'') ''utf-8'' '','' [] {})
       = Inr (True, None)
   \<and> fst (is_form_12 backslash_only (''x,male,a@b.com'' @ [LF] @ ''y,z,w'') ''utf-8'' '','' [] {})
       = Inr (True, None)
   \<and> fst (detect_form backslash_only ['','', '';'', ''|'', [TAB]] ''f''
         (Some (''x,male,a@b.com'' @ [LF] @ ''y,z,w'')) ''utf-8'' True False ({}, []))
       = Inl ValueError"
  by code_simp

text \<open>
  C3. The content \<open>hello\<close> has no line terminator, so that the testers which need more than
  one row should reject it with \<open>single_row\<close> and the verdict should be no form. But
  \<open>split_file\<close> returns the string itself and not a list of one row, \<open>more_than_one_row\<close>
  counts its five characters, the loop of \<open>is_form_6\<close> takes each character as a row, and
  \<open>detect_form\<close> returns form 6 with the empty delimiter and quote character, for every
  escape test and encoding.
\<close>

theorem single_line_is_form_6:
  "split_file ''hello'' = RowStr ''hello''
   \<and> more_than_one_row (split_file ''hello'')
   \<and> is_form_6 esc ''hello'' encoding [] [] {} = (Inr (True, None), {6})
   \<and> fst (detect_form esc ['','', '';'', ''|'', [TAB]] ''f'' (Some ''hello'') encoding True False ({}, []))
       = Inr (FORM 6, [(''delim'', []), (''quotechar'', []), (''escapechar'', [])])
   \<and> snd (snd (detect_form esc ['','', '';'', ''|'', [TAB]] ''f'' (Some ''hello'') encoding True False ({}, [])))
       = [(6, [(''delim'', []), (''quotechar'', []), (''escapechar'', []), (''filename'', ''f'')])]"
  by code_simp

section \<open>Properties of the Dialect value\<close>

text \<open>
  C10. Two Dialects compare equal exactly when their three attributes are equal one by
  one, a value that is not a Dialect never compares equal to a Dialect, and equal
  Dialects have equal hashes.
\<close>

theorem dialect_eq_hash:
  "(dialect_eq (Dialect d1 q1 e1) (PyDialect (Dialect d2 q2 e2)) =
      (d1 = d2 \<and> q1 = q2 \<and> e1 = e2))
   \<and> (\<not> isinstance_Dialect other \<longrightarrow> \<not> dialect_eq self other)
   \<and> (dialect_eq a (PyDialect b) \<longrightarrow> dialect_hash hash a = dialect_hash hash b)"
proof (intro conjI impI)
  show "dialect_eq (Dialect d1 q1 e1) (PyDialect (Dialect d2 q2 e2)) =
      (d1 = d2 \<and> q1 = q2 \<and> e1 = e2)"
    by simp
next
  assume "\<not> isinstance_Dialect other"
  then show "\<not> dialect_eq self other"
    by (cases other) simp_all
next
  assume "dialect_eq a (PyDialect b)"
  then show "dialect_hash hash a = dialect_hash hash b"
    by (simp add: dialect_hash_def)
qed

theorem dialect_eq_hash_witness:
  "\<not> isinstance_Dialect (PyStr '','') \<and> \<not> dialect_eq (Dialect (Some '','') (Some '''') (Some '''')) (PyStr '','')
   \<and> dialect_eq (Dialect (Some '','') None (Some '''')) (PyDialect (Dialect (Some '','') None (Some '''')))
   \<and> dialect_hash (\<lambda>k. 7) (Dialect (Some '','') None (Some ''''))
       = dialect_hash (\<lambda>k. 7) (Dialect (Some '','') None (Some ''''))"
  using dialect_eq_hash [of "Some '',''" "Some []" "Some []" "Some '',''" "Some []" "Some []"
          "PyStr '',''" "Dialect (Some '','') (Some []) (Some [])"
          "Dialect (Some '','') None (Some [])" "Dialect (Some '','') None (Some [])" "\<lambda>k. 7"]
  by simp

end
